theory Spec2Isabelle
  imports Complex_Main "HOL-Library.Multiset" "HOL-Library.AList"
begin

section \<open>Data model\<close>

subsection \<open>Weight sets and weight arithmetic\<close>

text \<open>
  A weight set is the value of \<^verbatim>\<open>model.get_weights()\<close>: an ordered sequence of numeric
  arrays.  An array is kept as the flat sequence of its entries, and an entry is a real
  number: the arithmetic below is exact, where numpy rounds.
\<close>

type_synonym ndarray = "real list"
type_synonym weightset = "ndarray list"

definition subtract_params :: "weightset \<Rightarrow> weightset \<Rightarrow> weightset" where
  \<comment> \<open>Modelled from the spec: \<^verbatim>\<open>elephas.utils.subtract_params\<close> is imported by
      \<^verbatim>\<open>spark_model.py\<close> and its file is missing; section 2 of the spec gives it as the
      elementwise subtraction of two ordered sequences of arrays.\<close>
  "subtract_params param_list_left param_list_right =
     map2 (\<lambda>x y. map2 (\<lambda>a b. a - b) x y) param_list_left param_list_right"

definition divide_by :: "weightset \<Rightarrow> nat \<Rightarrow> weightset" where
  \<comment> \<open>Modelled from the spec: \<^verbatim>\<open>elephas.utils.divide_by\<close> is imported by
      \<^verbatim>\<open>spark_model.py\<close> and its file is missing; section 2 of the spec gives it as
      the division of every array by a scalar.  The only call site passes the number of
      collected results from inside a loop over them, so the divisor is never zero there.\<close>
  "divide_by array_list num_workers = map (map (\<lambda>a. a / real num_workers)) array_list"

definition same_shape :: "weightset \<Rightarrow> weightset \<Rightarrow> bool" where
  \<comment> \<open>The invariant of section 3 of the spec: identical length and matching shapes.\<close>
  "same_shape a b = (map length a = map length b)"

subsection \<open>Python values that are stored as JSON\<close>

datatype json =
    JNull
  | JBool bool
  | JInt int
  | JFloat real
  | JStr string
  | JArr "json list"
  | JObj "(string \<times> json) list"

datatype error =
    Exception string
  | ValueError string
  | AssertionError string
  | TypeError string
  | AttributeError string
  | OSError string
  | ZeroDivisionError
  | IndexError
  | ConnectionError

subsection \<open>The master network\<close>

text \<open>
  The Keras model is opaque to the orchestrator.  The record keeps what the orchestrator
  reads and writes: the architecture (\<^verbatim>\<open>to_json()\<close>), the weights
  (\<^verbatim>\<open>get_weights()\<close>, \<^verbatim>\<open>set_weights\<close>) and whether the model has been compiled
  (\<^verbatim>\<open>hasattr(model, "loss")\<close>).
\<close>

record keras_model =
  to_json :: string
  get_weights :: weightset
  has_loss :: bool

definition set_weights :: "keras_model \<Rightarrow> weightset \<Rightarrow> keras_model" where
  "set_weights m w = m\<lparr>get_weights := w\<rparr>"

subsection \<open>Parameter server and client\<close>

text \<open>
  The server and the client come from \<^verbatim>\<open>elephas.parameter\<close>, whose files are missing.
  They are modelled from sections 4.1 to 4.3 of the spec: the server wraps the parameter
  store, \<^verbatim>\<open>start\<close> and \<^verbatim>\<open>stop\<close> open and close its endpoint, an update
  subtracts the delta from the store, and the client reads the current snapshot.
\<close>

record parameter_server =
  ps_weights :: weightset
  ps_port :: int
  ps_mode :: string
  ps_running :: bool

datatype transport = Http | Socket

definition get_factory :: "string \<Rightarrow> error + transport" where
  \<comment> \<open>Modelled from the spec: \<^verbatim>\<open>ClientServerFactory.get_factory\<close> is missing; section 6
      of the spec names the two transports, HTTP and raw socket, behind the factory.\<close>
  "get_factory t =
     (if t = ''http'' then Inr Http
      else if t = ''socket'' then Inr Socket
      else Inl (ValueError ''Unknown parameter server mode''))"

definition create_server :: "keras_model \<Rightarrow> int \<Rightarrow> string \<Rightarrow> parameter_server" where
  \<comment> \<open>Modelled from the spec: the store is initialised from the serialized model.\<close>
  "create_server serialized_model p m =
     \<lparr>ps_weights = get_weights serialized_model, ps_port = p, ps_mode = m, ps_running = False\<rparr>"

definition apply_delta :: "parameter_server \<Rightarrow> weightset \<Rightarrow> parameter_server" where
  \<comment> \<open>Modelled from the spec, section 4.1: \<^verbatim>\<open>current = current - delta\<close>.\<close>
  "apply_delta srv delta = srv\<lparr>ps_weights := subtract_params (ps_weights srv) delta\<rparr>"

text \<open>
  What an asynchronous worker does to the server, seen from the server: it sends a delta,
  or it fetches the parameters and goes on from what it received, or it is finished.
\<close>

datatype client_prog =
    Finished
  | Send_delta weightset client_prog
  | Fetch_parameters "weightset \<Rightarrow> client_prog"

primrec run_client :: "client_prog \<Rightarrow> parameter_server \<Rightarrow> parameter_server" where
  \<comment> \<open>Modelled from the spec: the server answers the requests of one worker in order
      (sections 4.2 and 4.5).\<close>
  "run_client Finished srv = srv"
| "run_client (Send_delta delta k) srv = run_client k (apply_delta srv delta)"
| "run_client (Fetch_parameters k) srv = run_client (k (ps_weights srv)) srv"

subsection \<open>The orchestrator\<close>

datatype model_class = SparkModel | SparkMLlibModel

definition class_name :: "model_class \<Rightarrow> string" where
  "class_name c = (case c of SparkModel \<Rightarrow> ''SparkModel'' | SparkMLlibModel \<Rightarrow> ''SparkMLlibModel'')"

datatype event =
    Compile
  | Start_server
  | Broadcast
  | Dispatch
  | Get_parameters
  | Set_weights
  | Stop_server

text \<open>
  The fields are those that \<^verbatim>\<open>SparkModel.__init__\<close> sets and the claims read, with
  the types of its docstring.  \<open>trace\<close> is not a field of the class: it records, in
  order, the calls that \<^verbatim>\<open>_fit\<close> makes on the master network, the server, the client
  and the distributed engine.
\<close>

record 'h spark_model =
  cls :: model_class
  master_network :: keras_model
  training_histories :: "'h list"
  mode :: string
  frequency :: string
  num_workers :: "int option"
  weights :: weightset
  parameter_server_mode :: string
  batch_size :: int
  port :: int
  kwargs :: "(string \<times> json) list"
  parameter_server :: "parameter_server option"
  client :: "int option"
  trace :: "event list"

subsection \<open>Construction\<close>

definition named_params :: "model_class \<Rightarrow> string list" where
  "named_params c =
     (case c of
        SparkModel \<Rightarrow>
          [''model'', ''mode'', ''frequency'', ''parameter_server_mode'', ''num_workers'',
           ''custom_objects'', ''batch_size'', ''port'']
      | SparkMLlibModel \<Rightarrow>
          [''model'', ''mode'', ''frequency'', ''parameter_server_mode'', ''num_workers'',
           ''elephas_optimizer'', ''custom_objects'', ''batch_size'', ''port''])"

definition arg_str :: "(string \<times> json) list \<Rightarrow> string \<Rightarrow> string \<Rightarrow> error + string" where
  "arg_str kws k d =
     (case map_of kws k of
        None \<Rightarrow> Inr d
      | Some (JStr v) \<Rightarrow> Inr v
      | Some _ \<Rightarrow> Inl (TypeError k))"

definition arg_int :: "(string \<times> json) list \<Rightarrow> string \<Rightarrow> int \<Rightarrow> error + int" where
  "arg_int kws k d =
     (case map_of kws k of
        None \<Rightarrow> Inr d
      | Some (JInt v) \<Rightarrow> Inr v
      | Some _ \<Rightarrow> Inl (TypeError k))"

definition arg_int_opt ::
  "(string \<times> json) list \<Rightarrow> string \<Rightarrow> int option \<Rightarrow> error + int option" where
  "arg_int_opt kws k d =
     (case map_of kws k of
        None \<Rightarrow> Inr d
      | Some JNull \<Rightarrow> Inr None
      | Some (JInt v) \<Rightarrow> Inr (Some v)
      | Some _ \<Rightarrow> Inl (TypeError k))"

definition then_do :: "error + 'a \<Rightarrow> ('a \<Rightarrow> error + 'b) \<Rightarrow> error + 'b" where
  "then_do r f = (case r of Inl e \<Rightarrow> Inl e | Inr v \<Rightarrow> f v)"

text \<open>
  \<^verbatim>\<open>cls(model=model, **kws)\<close>: the call binds the keywords to the named parameters of
  \<^verbatim>\<open>__init__\<close>, with the defaults of the signature, and the rest to \<^verbatim>\<open>kwargs\<close>.
  The record is typed, so a keyword whose value is not of the documented type is
  refused here with a \<open>TypeError\<close>; \<^verbatim>\<open>custom_objects\<close> and \<^verbatim>\<open>elephas_optimizer\<close>
  are bound and not kept.  The body then follows the source: an uncompiled model is
  refused, the fields are set, and the server and the client are created unless the
  mode is synchronous.
\<close>

definition new_model ::
  "model_class \<Rightarrow> keras_model \<Rightarrow> (string \<times> json) list \<Rightarrow> error + 'h spark_model" where
  "new_model c model kws =
     (if \<not> distinct (map fst kws) \<or> ''model'' \<in> set (map fst kws)
      then Inl (TypeError ''model'')
      else
        then_do (arg_str kws ''mode'' ''asynchronous'') (\<lambda>mode_arg.
        then_do (arg_str kws ''frequency'' ''epoch'') (\<lambda>frequency_arg.
        then_do (arg_str kws ''parameter_server_mode'' ''http'') (\<lambda>psm_arg.
        then_do (arg_int_opt kws ''num_workers''
                   (case c of SparkModel \<Rightarrow> None | SparkMLlibModel \<Rightarrow> Some 4)) (\<lambda>num_workers_arg.
        then_do (arg_int kws ''batch_size'' 32) (\<lambda>batch_size_arg.
        then_do (arg_int kws ''port'' 4000) (\<lambda>port_arg.
          if \<not> has_loss model
          then Inl (Exception ''Compile your Keras model before initializing an Elephas model with it'')
          else
            let s = \<lparr>cls = c,
                     master_network = model,
                     training_histories = [],
                     mode = mode_arg,
                     frequency = frequency_arg,
                     num_workers = num_workers_arg,
                     weights = get_weights model,
                     parameter_server_mode = psm_arg,
                     batch_size = batch_size_arg,
                     port = port_arg,
                     kwargs = filter (\<lambda>kv. fst kv \<notin> set (named_params c)) kws,
                     parameter_server = None,
                     client = None,
                     trace = []\<rparr>
            in if mode_arg \<noteq> ''synchronous''
               then then_do (get_factory psm_arg) (\<lambda>factory.
                      Inr (s\<lparr>parameter_server := Some (create_server model port_arg mode_arg),
                             client := Some port_arg\<rparr>))
               else Inr s)))))))"

section \<open>Training\<close>

text \<open>
  The distributed engine and the two workers are outside the source.  An RDD is the list
  of its partitions, a partition the list of its elements.  \<open>repartition\<close> is the
  engine's; \<open>sync_train\<close> is \<^verbatim>\<open>SparkWorker.train\<close> on one partition, which yields
  one pair of a gradient and a history (section 4.4 of the spec); \<open>async_train\<close> is
  \<^verbatim>\<open>AsynchronousSparkWorker.train\<close> on one partition, which talks to the server
  (section 4.5).  The partitions of an asynchronous run are served one after the other:
  the interleaving of concurrent workers is not modelled.
\<close>

record ('d, 'h) engine =
  repartition :: "int \<Rightarrow> 'd list list \<Rightarrow> 'd list list"
  sync_train :: "weightset \<Rightarrow> 'd list \<Rightarrow> weightset \<times> 'h"
  async_train :: "weightset \<Rightarrow> 'd list \<Rightarrow> client_prog"

definition log_event :: "event \<Rightarrow> 'h spark_model \<Rightarrow> 'h spark_model" where
  "log_event e s = s\<lparr>trace := trace s @ [e]\<rparr>"

definition start_server :: "'h spark_model \<Rightarrow> error + 'h spark_model" where
  \<comment> \<open>\<^verbatim>\<open>self.parameter_server.start()\<close>; the attribute exists only when
      \<^verbatim>\<open>__init__\<close> created the server.\<close>
  "start_server s =
     (case parameter_server s of
        None \<Rightarrow> Inl (AttributeError ''parameter_server'')
      | Some srv \<Rightarrow>
          Inr (log_event Start_server (s\<lparr>parameter_server := Some (srv\<lparr>ps_running := True\<rparr>)\<rparr>)))"

definition stop_server :: "'h spark_model \<Rightarrow> error + 'h spark_model" where
  \<comment> \<open>\<^verbatim>\<open>self.parameter_server.stop()\<close>\<close>
  "stop_server s =
     (case parameter_server s of
        None \<Rightarrow> Inl (AttributeError ''parameter_server'')
      | Some srv \<Rightarrow>
          Inr (log_event Stop_server (s\<lparr>parameter_server := Some (srv\<lparr>ps_running := False\<rparr>)\<rparr>)))"

definition client_get_parameters :: "'h spark_model \<Rightarrow> error + weightset" where
  \<comment> \<open>Modelled from the spec: \<^verbatim>\<open>self.client.get_parameters()\<close>, whose client class is
      missing, fetches the current snapshot of the store (section 4.3); the server is the
      one that listens on the client's port, and a server that is not running does not
      answer.\<close>
  "client_get_parameters s =
     (case client s of
        None \<Rightarrow> Inl (AttributeError ''client'')
      | Some p \<Rightarrow>
          (case parameter_server s of
             None \<Rightarrow> Inl ConnectionError
           | Some srv \<Rightarrow>
               if ps_running srv \<and> ps_port srv = p then Inr (ps_weights srv)
               else Inl ConnectionError))"

definition async_dispatch ::
  "('d, 'h) engine \<Rightarrow> weightset \<Rightarrow> 'd list list \<Rightarrow> parameter_server \<Rightarrow> parameter_server" where
  \<comment> \<open>\<^verbatim>\<open>rdd.mapPartitions(worker.train).collect()\<close> with the asynchronous worker.\<close>
  "async_dispatch eng parameters rdd srv =
     fold (\<lambda>part. run_client (async_train eng parameters part)) rdd srv"

fun reconcile ::
  "nat \<Rightarrow> (weightset \<times> 'h) list \<Rightarrow> weightset \<times> 'h list \<Rightarrow> weightset \<times> 'h list" where
  \<comment> \<open>The loop over \<^verbatim>\<open>training_outcomes\<close> in \<^verbatim>\<open>_fit\<close>.\<close>
  "reconcile number_of_sub_models [] (new_parameters, histories) = (new_parameters, histories)"
| "reconcile number_of_sub_models ((grad, history) # rest) (new_parameters, histories) =
     reconcile number_of_sub_models rest
       (subtract_params new_parameters (divide_by grad number_of_sub_models),
        histories @ [history])"

definition train_asynchronous ::
  "('d, 'h) engine \<Rightarrow> 'h spark_model \<Rightarrow> weightset \<Rightarrow> 'd list list \<Rightarrow>
     (error + weightset) \<times> 'h spark_model" where
  \<comment> \<open>The branch of \<^verbatim>\<open>_fit\<close> for the modes asynchronous and hogwild: the workers are
      dispatched, then the client fetches the parameters.\<close>
  "train_asynchronous eng s parameters rdd =
     (case client s of
        None \<Rightarrow> (Inl (AttributeError ''client''), s)
      | Some p \<Rightarrow>
          (case parameter_server s of
             None \<Rightarrow> (Inl ConnectionError, s)
           | Some srv \<Rightarrow>
               (let s4 = log_event Dispatch
                           (s\<lparr>parameter_server := Some (async_dispatch eng parameters rdd srv)\<rparr>)
                in (client_get_parameters s4, log_event Get_parameters s4))))"

definition train_synchronous ::
  "('d, 'h) engine \<Rightarrow> 'h spark_model \<Rightarrow> weightset \<Rightarrow> 'd list list \<Rightarrow>
     (error + weightset) \<times> 'h spark_model" where
  \<comment> \<open>The branch of \<^verbatim>\<open>_fit\<close> for the mode synchronous: the outcomes are collected,
      then folded into the weights of the master network.\<close>
  "train_synchronous eng s parameters rdd =
     (let training_outcomes = map (sync_train eng parameters) rdd;
          s4 = log_event Dispatch s;
          r = reconcile (length training_outcomes) training_outcomes
                (get_weights (master_network s4), training_histories s4)
      in (Inr (fst r), s4\<lparr>training_histories := snd r\<rparr>))"

definition fit' ::
  "('d, 'h) engine \<Rightarrow> 'h spark_model \<Rightarrow> 'd list list \<Rightarrow> error option \<times> 'h spark_model" where
  \<comment> \<open>\<^verbatim>\<open>SparkModel._fit\<close>.  The result is the exception raised, if any, and the
      orchestrator as the call leaves it.\<close>
  "fit' eng s0 rdd =
     (let s1 = log_event Compile s0 in
      case (if mode s1 \<in> set [''asynchronous'', ''hogwild''] then start_server s1 else Inr s1) of
        Inl e \<Rightarrow> (Some e, s1)
      | Inr s2 \<Rightarrow>
         (let init = get_weights (master_network s2);
              s3 = log_event Broadcast s2;
              reconciled =
                (if mode s3 \<in> set [''asynchronous'', ''hogwild'']
                 then train_asynchronous eng s3 init rdd
                 else if mode s3 = ''synchronous''
                 then train_synchronous eng s3 init rdd
                 else (Inl (ValueError (''Unsupported mode '' @ mode s3)), s3));
              s5 = snd reconciled
          in (case fst reconciled of
                Inl e \<Rightarrow> (Some e, s5)
              | Inr new_parameters \<Rightarrow>
                 (let s6 = log_event Set_weights
                             (s5\<lparr>master_network := set_weights (master_network s5) new_parameters\<rparr>)
                  in if mode s6 \<in> set [''asynchronous'', ''hogwild'']
                     then (case stop_server s6 of
                             Inl e \<Rightarrow> (Some e, s6)
                           | Inr s7 \<Rightarrow> (None, s7))
                     else (None, s6)))))"

definition truthy :: "int option \<Rightarrow> bool" where
  \<comment> \<open>Python's truth value of \<^verbatim>\<open>self.num_workers\<close>: \<^verbatim>\<open>None\<close> and \<^verbatim>\<open>0\<close> are false.\<close>
  "truthy n = (case n of None \<Rightarrow> False | Some k \<Rightarrow> k \<noteq> 0)"

definition fit ::
  "('d, 'h) engine \<Rightarrow> 'h spark_model \<Rightarrow> 'd list list \<Rightarrow> error option \<times> 'h spark_model" where
  \<comment> \<open>\<^verbatim>\<open>SparkModel.fit\<close>.\<close>
  "fit eng s rdd0 =
     (let rdd = (if truthy (num_workers s) then repartition eng (the (num_workers s)) rdd0 else rdd0)
      in if mode s \<in> set [''asynchronous'', ''synchronous'', ''hogwild'']
         then fit' eng s rdd
         else (Some (ValueError ''Choose from one of the modes: asynchronous, synchronous or hogwild''), s))"

definition master_weights :: "'h spark_model \<Rightarrow> weightset" where
  \<comment> \<open>\<^verbatim>\<open>self._master_network.get_weights()\<close>\<close>
  "master_weights s = get_weights (master_network s)"

definition server_invariant :: "'h spark_model \<Rightarrow> bool" where
  \<comment> \<open>What \<^verbatim>\<open>__init__\<close> leaves behind: outside the synchronous mode a server and a
      client on the server's port, in the synchronous mode neither.\<close>
  "server_invariant s =
     (case parameter_server s of
        None \<Rightarrow> mode s = ''synchronous'' \<and> client s = None
      | Some srv \<Rightarrow> mode s \<noteq> ''synchronous'' \<and> client s = Some (ps_port srv))"

definition precedes :: "event \<Rightarrow> event \<Rightarrow> event list \<Rightarrow> bool" where
  \<comment> \<open>\<open>a\<close> occurs in the trace and \<open>b\<close> occurs after its first occurrence.\<close>
  "precedes a b evs = (b \<in> set (drop 1 (dropWhile (\<lambda>e. e \<noteq> a) evs)))"

primrec deltas_sent :: "client_prog \<Rightarrow> parameter_server \<Rightarrow> weightset list" where
  \<comment> \<open>The deltas that reach the server when the worker runs against it, in order.\<close>
  "deltas_sent Finished srv = []"
| "deltas_sent (Send_delta delta k) srv = delta # deltas_sent k (apply_delta srv delta)"
| "deltas_sent (Fetch_parameters k) srv = deltas_sent (k (ps_weights srv)) srv"

section \<open>Evaluation\<close>

text \<open>
  \<^verbatim>\<open>model.evaluate\<close> returns a scalar loss, or the list of the loss and the metric
  values.  The three RDD operations below are the engine's: \<^verbatim>\<open>mapPartitions\<close> and
  \<^verbatim>\<open>map\<close> fail as soon as one task fails, and \<^verbatim>\<open>reduce\<close> folds every non-empty
  partition from its first element, then folds the results of the partitions, and
  refuses an RDD without elements.  The public \<^verbatim>\<open>evaluate\<close> builds the RDD of pairs
  of a feature and a label and calls \<^verbatim>\<open>_evaluate\<close>.  The values are real numbers:
  the arithmetic is exact.
\<close>

datatype eval_result = Scalar real | Listed "real list"

definition as_list :: "eval_result \<Rightarrow> real list" where
  \<comment> \<open>\<^verbatim>\<open>[r] if not isinstance(r, list) else r\<close>\<close>
  "as_list r = (case r of Scalar v \<Rightarrow> [v] | Listed vs \<Rightarrow> vs)"

fun rdd_map :: "('a \<Rightarrow> error + 'b) \<Rightarrow> 'a list \<Rightarrow> error + 'b list" where
  "rdd_map f [] = Inr []"
| "rdd_map f (x # xs) = then_do (f x) (\<lambda>y. then_do (rdd_map f xs) (\<lambda>ys. Inr (y # ys)))"

fun reduce_from :: "('a \<Rightarrow> 'a \<Rightarrow> error + 'a) \<Rightarrow> 'a \<Rightarrow> 'a list \<Rightarrow> error + 'a" where
  "reduce_from f acc [] = Inr acc"
| "reduce_from f acc (x # xs) = then_do (f acc x) (\<lambda>acc'. reduce_from f acc' xs)"

fun reduce_partitions :: "('a \<Rightarrow> 'a \<Rightarrow> error + 'a) \<Rightarrow> 'a list list \<Rightarrow> error + 'a list" where
  "reduce_partitions f [] = Inr []"
| "reduce_partitions f ([] # ps) = reduce_partitions f ps"
| "reduce_partitions f ((x # xs) # ps) =
     then_do (reduce_from f x xs) (\<lambda>v. then_do (reduce_partitions f ps) (\<lambda>vs. Inr (v # vs)))"

definition rdd_reduce :: "('a \<Rightarrow> 'a \<Rightarrow> error + 'a) \<Rightarrow> 'a list list \<Rightarrow> error + 'a" where
  "rdd_reduce f rdd =
     then_do (reduce_partitions f rdd) (\<lambda>vals.
       case vals of
         [] \<Rightarrow> Inl (ValueError ''Can not reduce() empty RDD'')
       | v # vs \<Rightarrow> reduce_from f v vs)"

definition evaluate_partition :: "('d list \<Rightarrow> eval_result) \<Rightarrow> 'd list \<Rightarrow> real list list" where
  \<comment> \<open>The inner \<^verbatim>\<open>_evaluate\<close>: the evaluation results and the size of the sample, as
      the one element that the partition yields.\<close>
  "evaluate_partition model_evaluate data_iterator =
     (let evaluation_results = as_list (model_evaluate data_iterator)
      in [evaluation_results @ [real (length data_iterator)]])"

definition mapping_function :: "real list \<Rightarrow> error + real list" where
  \<comment> \<open>\<^verbatim>\<open>tuple(x[-1] * x[i] for i in range(len(x) - 1)) + (x[-1],)\<close>\<close>
  "mapping_function x =
     (if x = [] then Inl IndexError
      else Inr (map (\<lambda>i. last x * x ! i) [0..<length x - 1] @ [last x]))"

definition reducing_function :: "real list \<Rightarrow> real list \<Rightarrow> error + real list" where
  \<comment> \<open>\<^verbatim>\<open>tuple(x[i] + y[i] for i in range(len(x)))\<close>\<close>
  "reducing_function x y =
     (if length y < length x then Inl IndexError
      else Inr (map (\<lambda>i. x ! i + y ! i) [0..<length x]))"

definition averaged :: "real list \<Rightarrow> error + eval_result" where
  \<comment> \<open>The last lines of \<^verbatim>\<open>_evaluate\<close>: the aggregate is unpacked into the loss, the
      metrics and the number of samples, and the loss and the metrics are divided by that
      number; a loss without metrics is returned as a scalar.\<close>
  "averaged agg =
     (if length agg < 2 then Inl (ValueError ''not enough values to unpack'')
      else
        (let agg_loss = hd agg;
             agg_metrics = butlast (tl agg);
             number_of_samples = last agg
         in if number_of_samples = 0 then Inl ZeroDivisionError
            else
              (let avg_loss = agg_loss / number_of_samples;
                   avg_metrics = map (\<lambda>agg_metric. agg_metric / number_of_samples) agg_metrics
               in Inr (if avg_metrics \<noteq> [] then Listed (avg_loss # avg_metrics)
                       else Scalar avg_loss))))"

definition evaluate' ::
  "(int \<Rightarrow> 'd list list \<Rightarrow> 'd list list) \<Rightarrow> (weightset \<Rightarrow> 'd list \<Rightarrow> eval_result) \<Rightarrow>
     'h spark_model \<Rightarrow> 'd list list \<Rightarrow> error + eval_result" where
  \<comment> \<open>\<^verbatim>\<open>SparkModel._evaluate\<close>.  \<open>repartition_rdd\<close> is the engine's and
      \<open>model_evaluate w\<close> is \<^verbatim>\<open>model.evaluate\<close> of the model with the weights \<open>w\<close>.\<close>
  "evaluate' repartition_rdd model_evaluate s rdd0 =
     (let weights = master_weights s;
          rdd = (case num_workers s of
                   None \<Rightarrow> rdd0
                 | Some n \<Rightarrow> if n \<noteq> 0 then repartition_rdd n rdd0 else rdd0);
          results = map (evaluate_partition (model_evaluate weights)) rdd
      in then_do (rdd_map (rdd_map mapping_function) results) (\<lambda>mapped.
         then_do (rdd_reduce reducing_function mapped) averaged))"

section \<open>Prediction\<close>

text \<open>
  \<^verbatim>\<open>zipWithIndex\<close> pairs every element with its position in the RDD, counted through
  the partitions in order.  \<^verbatim>\<open>sortBy\<close> followed by \<^verbatim>\<open>collect\<close> gives the elements in
  the order of their keys.  The public \<^verbatim>\<open>predict\<close> turns an array into an RDD and
  calls \<^verbatim>\<open>_predict\<close>.
\<close>

fun index_from :: "nat \<Rightarrow> 'a list list \<Rightarrow> ('a \<times> nat) list list" where
  "index_from n [] = []"
| "index_from n (p # ps) = zip p [n..<n + length p] # index_from (n + length p) ps"

definition zipWithIndex :: "'a list list \<Rightarrow> ('a \<times> nat) list list" where
  "zipWithIndex rdd = index_from 0 rdd"

definition predict_partition :: "('x list \<Rightarrow> 'y list) \<Rightarrow> 'x list \<Rightarrow> error + 'y list" where
  \<comment> \<open>The inner \<^verbatim>\<open>_predict\<close>: \<^verbatim>\<open>model.predict(np.array([x for x in data]))\<close>\<close>
  "predict_partition model_predict data = Inr (model_predict data)"

definition predict_with_indices ::
  "('x list \<Rightarrow> 'y list) \<Rightarrow> ('x \<times> nat) list \<Rightarrow> error + ('y \<times> nat) list" where
  \<comment> \<open>The inner \<^verbatim>\<open>_predict_with_indices\<close>.  \<^verbatim>\<open>data, indices = zip(*data)\<close> unpacks
      two tuples when the partition has an element, and has nothing to unpack when the
      partition is empty.\<close>
  "predict_with_indices model_predict data =
     (if data = [] then Inl (ValueError ''not enough values to unpack (expected 2, got 0)'')
      else Inr (zip (model_predict (map fst data)) (map snd data)))"

definition predict' ::
  "(int \<Rightarrow> ('x \<times> nat) list list \<Rightarrow> ('x \<times> nat) list list) \<Rightarrow>
     (weightset \<Rightarrow> 'x list \<Rightarrow> 'y list) \<Rightarrow> 'h spark_model \<Rightarrow> 'x list list \<Rightarrow> error + 'y list" where
  \<comment> \<open>\<^verbatim>\<open>SparkModel._predict\<close>.  \<open>repartition_rdd\<close> is the engine's and
      \<open>model_predict w\<close> is \<^verbatim>\<open>model.predict\<close> of the model with the weights \<open>w\<close>.\<close>
  "predict' repartition_rdd model_predict s rdd =
     (let weights = master_weights s;
          unindexed = then_do (rdd_map (predict_partition (model_predict weights)) rdd)
                        (\<lambda>predictions. Inr (concat predictions))
      in case num_workers s of
           None \<Rightarrow> unindexed
         | Some n \<Rightarrow>
             if n \<noteq> 0 \<and> n > 1 then
               (let rdd1 = zipWithIndex rdd;
                    rdd2 = repartition_rdd n rdd1
                in then_do (rdd_map (predict_with_indices (model_predict weights)) rdd2)
                     (\<lambda>predictions_and_indices.
                        Inr (map fst (sort_key snd (concat predictions_and_indices)))))
             else unindexed)"

section \<open>Saving and loading\<close>

text \<open>
  A model file holds what \<^verbatim>\<open>model.save\<close> writes, from which \<^verbatim>\<open>load_model\<close>
  gives the model back, and the attributes of the HDF5 root.  The attribute
  \<^verbatim>\<open>distributed_config\<close> is kept as the JSON document itself: \<^verbatim>\<open>json.dumps\<close> and
  \<^verbatim>\<open>json.loads\<close> are taken to be inverse on JSON values.  There are two file
  systems, the local one and the cluster's.
\<close>

record h5file =
  saved_model :: keras_model
  attrs :: "(string \<times> json) list"

record world =
  local_files :: "string \<rightharpoonup> h5file"
  cluster_files :: "string \<rightharpoonup> h5file"

definition str_suffix :: "nat \<Rightarrow> string \<Rightarrow> string" where
  \<comment> \<open>\<^verbatim>\<open>s[-n:]\<close>: the last \<open>n\<close> characters, or all of a shorter string.\<close>
  "str_suffix n s = drop (length s - n) s"

definition valid_extension :: "string \<Rightarrow> bool" where
  "valid_extension file_name =
     (str_suffix 3 file_name = ''.h5'' \<or> str_suffix 6 file_name = ''.keras'')"

definition last_component :: "string \<Rightarrow> string" where
  \<comment> \<open>\<^verbatim>\<open>file_name.split(".")[-1]\<close>\<close>
  "last_component file_name = rev (takeWhile (\<lambda>c. c \<noteq> CHR ''.'') (rev file_name))"

definition temp_name :: "string \<Rightarrow> string \<Rightarrow> string" where
  \<comment> \<open>\<^verbatim>\<open>str(uuid4()) + "-temp-model-file." + file_name.split(".")[-1]\<close>, with the
      drawn identifier as a parameter.\<close>
  "temp_name uuid file_name = uuid @ ''-temp-model-file.'' @ last_component file_name"

definition keras_save :: "keras_model \<Rightarrow> string \<Rightarrow> world \<Rightarrow> world" where
  \<comment> \<open>\<^verbatim>\<open>model.save(file_name)\<close> of Keras, whose \<^verbatim>\<open>overwrite\<close> parameter defaults to
      true: a file at the path is replaced without a question.\<close>
  "keras_save model file_name w =
     w\<lparr>local_files := (local_files w)(file_name \<mapsto> \<lparr>saved_model = model, attrs = []\<rparr>)\<rparr>"

definition set_attr :: "string \<Rightarrow> string \<Rightarrow> json \<Rightarrow> world \<Rightarrow> world" where
  \<comment> \<open>\<^verbatim>\<open>f = h5py.File(file_name, mode='a'); f.attrs[k] = v; f.flush(); f.close()\<close>:
      the mode opens the file for reading and writing and creates it when it is missing,
      which cannot happen after \<open>keras_save\<close>.\<close>
  "set_attr file_name k v w =
     (case local_files w file_name of
        None \<Rightarrow> w
      | Some f \<Rightarrow>
          w\<lparr>local_files := (local_files w)(file_name \<mapsto> f\<lparr>attrs := AList.update k v (attrs f)\<rparr>)\<rparr>)"

definition hadoop_moveFromLocal :: "bool \<Rightarrow> string \<Rightarrow> string \<Rightarrow> world \<Rightarrow> world" where
  \<comment> \<open>\<^verbatim>\<open>subprocess.run(["hadoop", "fs", "-moveFromLocal", ("-f",) src, dst])\<close>.  The
      command copies the local file to the cluster and deletes the local file; without
      \<^verbatim>\<open>-f\<close> it refuses a destination that exists and changes nothing.  The source
      runs it without \<^verbatim>\<open>check\<close> and does not read its exit status, so a refusal is
      silent.\<close>
  "hadoop_moveFromLocal force src dst w =
     (case local_files w src of
        None \<Rightarrow> w
      | Some f \<Rightarrow>
          if cluster_files w dst \<noteq> None \<and> \<not> force then w
          else w\<lparr>cluster_files := (cluster_files w)(dst \<mapsto> f),
                 local_files := (local_files w)(src := None)\<rparr>)"

definition hadoop_copyToLocal :: "string \<Rightarrow> string \<Rightarrow> world \<Rightarrow> world" where
  \<comment> \<open>\<^verbatim>\<open>subprocess.run(["hadoop", "fs", "-copyToLocal", src, dst])\<close>: the command
      copies the cluster's file to the local path; it changes nothing when the source is
      missing or the local path exists.  Its exit status is not read either.\<close>
  "hadoop_copyToLocal src dst w =
     (case cluster_files w src of
        None \<Rightarrow> w
      | Some f \<Rightarrow>
          if local_files w dst \<noteq> None then w
          else w\<lparr>local_files := (local_files w)(dst \<mapsto> f)\<rparr>)"

definition unlink :: "string \<Rightarrow> world \<Rightarrow> world" where
  "unlink file_name w = w\<lparr>local_files := (local_files w)(file_name := None)\<rparr>"

definition get_config :: "'h spark_model \<Rightarrow> (string \<times> json) list" where
  \<comment> \<open>\<^verbatim>\<open>config = base_config.copy(); config.update(self.kwargs)\<close>\<close>
  "get_config s =
     (let base_config =
            [(''parameter_server_mode'', JStr (parameter_server_mode s)),
             (''mode'', JStr (mode s)),
             (''frequency'', JStr (frequency s)),
             (''num_workers'', (case num_workers s of None \<Rightarrow> JNull | Some n \<Rightarrow> JInt n)),
             (''batch_size'', JInt (batch_size s))]
      in fold (\<lambda>kv config. AList.update (fst kv) (snd kv) config) (kwargs s) base_config)"

definition save ::
  "string \<Rightarrow> 'h spark_model \<Rightarrow> string \<Rightarrow> bool \<Rightarrow> bool \<Rightarrow> world \<Rightarrow> error option \<times> world" where
  \<comment> \<open>\<^verbatim>\<open>SparkModel.save(file_name, overwrite, to_hadoop)\<close>; \<open>uuid\<close> is the identifier
      that \<^verbatim>\<open>uuid4()\<close> draws.\<close>
  "save uuid s file_name0 overwrite to_hadoop w0 =
     (if \<not> valid_extension file_name0
      then (Some (AssertionError ''File name must end with either .h5 or .keras''), w0)
      else
        (let w1 = (if overwrite \<and> \<not> to_hadoop \<and> local_files w0 file_name0 \<noteq> None
                   then unlink file_name0 w0 else w0);
             cluster_file_path = file_name0;
             file_name = (if to_hadoop then temp_name uuid file_name0 else file_name0);
             w2 = keras_save (master_network s) file_name w1;
             w3 = set_attr file_name ''distributed_config''
                    (JObj [(''class_name'', JStr (class_name (cls s))),
                           (''config'', JObj (get_config s))]) w2
         in if to_hadoop
            then (None, hadoop_moveFromLocal overwrite file_name cluster_file_path w3)
            else (None, w3)))"

definition construct ::
  "model_class \<Rightarrow> keras_model \<Rightarrow> json option \<Rightarrow> error + 'h spark_model option" where
  \<comment> \<open>\<^verbatim>\<open>cls(model=model, **config)\<close>, where \<^verbatim>\<open>config\<close> is what
      \<^verbatim>\<open>elephas_conf.get("config")\<close> returned: only a mapping can follow \<^verbatim>\<open>**\<close>.\<close>
  "construct c model config =
     (case config of
        Some (JObj kws) \<Rightarrow> then_do (new_model c model kws) (\<lambda>s. Inr (Some s))
      | _ \<Rightarrow> Inl (TypeError ''argument after ** must be a mapping''))"

definition load_spark_model ::
  "string \<Rightarrow> string \<Rightarrow> bool \<Rightarrow> world \<Rightarrow> (error + 'h spark_model option) \<times> world" where
  \<comment> \<open>\<^verbatim>\<open>load_spark_model(file_name, from_hadoop)\<close>.  The result \<open>Inr None\<close> is the
      \<^verbatim>\<open>None\<close> that Python returns when the function ends without a \<^verbatim>\<open>return\<close>.\<close>
  "load_spark_model uuid file_name0 from_hadoop w0 =
     (if \<not> valid_extension file_name0
      then (Inl (AssertionError ''File name must end with either .h5 or .keras''), w0)
      else
        (let temp_file = temp_name uuid file_name0;
             w1 = (if from_hadoop then hadoop_copyToLocal file_name0 temp_file w0 else w0);
             file_name = (if from_hadoop then temp_file else file_name0)
         in case local_files w1 file_name of
              None \<Rightarrow> (Inl (OSError ''No file or directory found''), w1)
            | Some f \<Rightarrow>
                (case map_of (attrs f) ''distributed_config'' of
                   None \<Rightarrow> (Inl (TypeError ''the JSON object must be str, bytes or bytearray''), w1)
                 | Some (JObj elephas_conf) \<Rightarrow>
                     (let class_name_read = map_of elephas_conf ''class_name'';
                          config = map_of elephas_conf ''config'';
                          w2 = (if from_hadoop then unlink file_name w1 else w1)
                      in if class_name_read = Some (JStr (class_name SparkModel))
                         then (construct SparkModel (saved_model f) config, w2)
                         else if class_name_read = Some (JStr (class_name SparkMLlibModel))
                         then (construct SparkMLlibModel (saved_model f) config, w2)
                         else (Inr None, w2))
                 | Some _ \<Rightarrow> (Inl (AttributeError ''get''), w1))))"

definition model_file :: "'h spark_model \<Rightarrow> h5file" where
  \<comment> \<open>The file that \<open>save\<close> writes for the orchestrator.\<close>
  "model_file s =
     \<lparr>saved_model = master_network s,
      attrs = [(''distributed_config'',
                JObj [(''class_name'', JStr (class_name (cls s))),
                      (''config'', JObj (get_config s))])]\<rparr>"

definition restored :: "'g spark_model \<Rightarrow> 'h spark_model \<Rightarrow> bool" where
  \<comment> \<open>The first orchestrator has the class, the configuration and the master weights
      of the second.\<close>
  "restored s' s =
     (cls s' = cls s \<and>
      parameter_server_mode s' = parameter_server_mode s \<and>
      mode s' = mode s \<and>
      frequency s' = frequency s \<and>
      num_workers s' = num_workers s \<and>
      batch_size s' = batch_size s \<and>
      kwargs s' = kwargs s \<and>
      get_config s' = get_config s \<and>
      master_weights s' = master_weights s)"

definition well_formed :: "'h spark_model \<Rightarrow> bool" where
  \<comment> \<open>What holds of every orchestrator that \<^verbatim>\<open>__init__\<close> has constructed: the master
      network is compiled, the extra keyword arguments have distinct names that are not
      names of parameters, and outside the synchronous mode the factory knew the
      transport.\<close>
  "well_formed s =
     (has_loss (master_network s) \<and>
      distinct (map fst (kwargs s)) \<and>
      set (map fst (kwargs s)) \<inter> set (named_params (cls s)) = {} \<and>
      (mode s = ''synchronous'' \<or> get_factory (parameter_server_mode s) \<noteq>
         Inl (ValueError ''Unknown parameter server mode'')))"

section \<open>Concrete inputs\<close>

definition demo_network :: keras_model where
  "demo_network = \<lparr>to_json = ''{}'', get_weights = [[1, 2], [3]], has_loss = True\<rparr>"

definition demo_engine :: "(real, string) engine" where
  \<comment> \<open>Every entry of a partition's gradient is the sum of the partition's elements.\<close>
  "demo_engine =
     \<lparr>repartition = (\<lambda>n rdd. rdd),
      sync_train = (\<lambda>w part. (map (map (\<lambda>a. sum_list part)) w, ''history'')),
      async_train = (\<lambda>w part. Send_delta (map (map (\<lambda>a. sum_list part)) w)
                                 (Fetch_parameters (\<lambda>w'. Finished)))\<rparr>"

definition demo_model :: "string \<Rightarrow> string spark_model" where
  \<comment> \<open>The orchestrator that \<^verbatim>\<open>SparkModel(demo_network, mode=m)\<close> constructs.\<close>
  "demo_model m =
     \<lparr>cls = SparkModel, master_network = demo_network, training_histories = [],
      mode = m, frequency = ''epoch'', num_workers = None, weights = [[1, 2], [3]],
      parameter_server_mode = ''http'', batch_size = 32, port = 4000, kwargs = [],
      parameter_server =
        (if m \<noteq> ''synchronous''
         then Some \<lparr>ps_weights = [[1, 2], [3]], ps_port = 4000, ps_mode = m, ps_running = False\<rparr>
         else None),
      client = (if m \<noteq> ''synchronous'' then Some 4000 else None),
      trace = []\<rparr>"

definition old_file :: h5file where
  \<comment> \<open>A plain Keras model file, without the attribute \<^verbatim>\<open>distributed_config\<close>.\<close>
  "old_file = \<lparr>saved_model = \<lparr>to_json = ''{}'', get_weights = [[0, 0], [0]], has_loss = True\<rparr>,
               attrs = []\<rparr>"

definition demo_world :: world where
  \<comment> \<open>\<^verbatim>\<open>model.h5\<close> exists locally and on the cluster.\<close>
  "demo_world = \<lparr>local_files = [''model.h5'' \<mapsto> old_file],
                 cluster_files = [''model.h5'' \<mapsto> old_file]\<rparr>"

definition empty_world :: world where
  "empty_world = \<lparr>local_files = Map.empty, cluster_files = Map.empty\<rparr>"

definition demo_hogwild :: "string spark_model" where
  \<comment> \<open>The orchestrator that \<^verbatim>\<open>SparkModel(demo_network, mode='hogwild', num_workers=3,
      verbose=0)\<close> constructs.\<close>
  "demo_hogwild = (demo_model ''hogwild'')\<lparr>num_workers := Some 3, kwargs := [(''verbose'', JInt 0)]\<rparr>"

definition round_robin :: "int \<Rightarrow> 'a list list \<Rightarrow> 'a list list" where
  \<comment> \<open>An engine that deals the elements to \<open>n\<close> partitions in turn.\<close>
  "round_robin n rdd =
     (let xs = concat rdd
      in map (\<lambda>i. map (\<lambda>j. xs ! j) (filter (\<lambda>j. j mod nat n = i) [0..<length xs])) [0..<nat n])"

definition doubling :: "weightset \<Rightarrow> real list \<Rightarrow> real list" where
  \<comment> \<open>A model that predicts, for every sample, twice the sample.\<close>
  "doubling w xs = map (\<lambda>x. 2 * x) xs"

section \<open>Properties of training\<close>

subsection \<open>Weight arithmetic\<close>

lemma same_shape_refl: "same_shape a a" by (simp add: same_shape_def)

lemma same_shape_length: "same_shape a b \<Longrightarrow> length a = length b"
  unfolding same_shape_def by (metis length_map)

lemma same_shape_nth: "same_shape a b \<Longrightarrow> i < length a \<Longrightarrow> length (a ! i) = length (b ! i)"
  unfolding same_shape_def by (metis length_map nth_map)

lemma same_shape_trans: "same_shape a b \<Longrightarrow> same_shape b c \<Longrightarrow> same_shape a c"
  by (simp add: same_shape_def)

lemma same_shape_sym: "same_shape a b \<Longrightarrow> same_shape b a"
  by (simp add: same_shape_def)

lemma same_shape_divide_by: "same_shape (divide_by g n) g"
  by (simp add: same_shape_def divide_by_def comp_def)

lemma divide_by_nth:
  "i < length g \<Longrightarrow> j < length (g ! i) \<Longrightarrow> divide_by g n ! i ! j = g ! i ! j / real n"
  by (simp add: divide_by_def)

lemma same_shape_subtract_params:
  assumes "same_shape b a" shows "same_shape (subtract_params a b) a"
proof -
  have len: "length b = length a" using assms by (rule same_shape_length)
  show ?thesis
    unfolding same_shape_def
  proof (rule nth_equalityI)
    show "length (map length (subtract_params a b)) = length (map length a)"
      by (simp add: subtract_params_def len)
  next
    fix i assume "i < length (map length (subtract_params a b))"
    then have i: "i < length a" by (simp add: subtract_params_def len)
    then have "length (b ! i) = length (a ! i)"
      using same_shape_nth [OF assms, of i] len by simp
    with i len show "map length (subtract_params a b) ! i = map length a ! i"
      by (simp add: subtract_params_def)
  qed
qed

lemma subtract_params_nth:
  assumes "same_shape b a" and "i < length a" and "j < length (a ! i)"
  shows "subtract_params a b ! i ! j = a ! i ! j - b ! i ! j"
proof -
  have len: "length b = length a" using assms(1) by (rule same_shape_length)
  have "length (b ! i) = length (a ! i)"
    using same_shape_nth [OF assms(1), of i] len assms(2) by simp
  with assms len show ?thesis by (simp add: subtract_params_def)
qed

lemma reconcile_snd:
  "snd (reconcile n outs (w, hs)) = hs @ map snd outs"
  by (induction outs arbitrary: w hs) auto

lemma reconcile_shape:
  "\<forall>g \<in> set (map fst outs). same_shape g w \<Longrightarrow> same_shape (fst (reconcile n outs (w, hs))) w"
proof (induction outs arbitrary: w hs)
  case Nil
  then show ?case by (simp add: same_shape_refl)
next
  case (Cons a outs)
  obtain g h where a: "a = (g, h)" by (cases a)
  let ?w = "subtract_params w (divide_by g n)"
  have gw: "same_shape g w" using Cons.prems a by simp
  have sw: "same_shape ?w w"
    by (rule same_shape_subtract_params) (rule same_shape_trans [OF same_shape_divide_by gw])
  have "\<forall>g' \<in> set (map fst outs). same_shape g' ?w"
    using Cons.prems sw by (auto intro: same_shape_trans same_shape_sym)
  from Cons.IH [OF this] have "same_shape (fst (reconcile n outs (?w, hs @ [h]))) ?w" .
  then show ?case using a sw by (auto intro: same_shape_trans)
qed

lemma reconcile_nth:
  "\<forall>g \<in> set (map fst outs). same_shape g w \<Longrightarrow> i < length w \<Longrightarrow> j < length (w ! i) \<Longrightarrow>
   fst (reconcile n outs (w, hs)) ! i ! j = w ! i ! j - (\<Sum>g\<leftarrow>map fst outs. g ! i ! j / real n)"
proof (induction outs arbitrary: w hs)
  case Nil
  then show ?case by simp
next
  case (Cons a outs)
  obtain g h where a: "a = (g, h)" by (cases a)
  let ?w = "subtract_params w (divide_by g n)"
  have gw: "same_shape g w" using Cons.prems(1) a by simp
  have dw: "same_shape (divide_by g n) w"
    by (rule same_shape_trans [OF same_shape_divide_by gw])
  have sw: "same_shape ?w w" using dw by (rule same_shape_subtract_params)
  have all: "\<forall>g' \<in> set (map fst outs). same_shape g' ?w"
    using Cons.prems(1) sw by (auto intro: same_shape_trans same_shape_sym)
  have i: "i < length ?w" using same_shape_length [OF sw] Cons.prems(2) by simp
  have j: "j < length (?w ! i)" using same_shape_nth [OF sw i] Cons.prems(3) by simp
  have ig: "i < length g" using same_shape_length [OF gw] Cons.prems(2) by simp
  have jg: "j < length (g ! i)" using same_shape_nth [OF gw ig] Cons.prems(3) by simp
  have "?w ! i ! j = w ! i ! j - g ! i ! j / real n"
    using subtract_params_nth [OF dw Cons.prems(2,3)] divide_by_nth [OF ig jg] by simp
  with Cons.IH [OF all i j, of "hs @ [h]"] a show ?case by simp
qed

subsection \<open>What a call of fit does\<close>

lemma fit'_synchronous:
  assumes "mode s = ''synchronous''"
  shows "fst (fit' eng s rdd) = None"
    and "master_weights (snd (fit' eng s rdd)) =
           fst (reconcile (length rdd) (map (sync_train eng (master_weights s)) rdd)
                  (master_weights s, training_histories s))"
    and "trace (snd (fit' eng s rdd)) = trace s @ [Compile, Broadcast, Dispatch, Set_weights]"
    and "training_histories (snd (fit' eng s rdd)) =
           training_histories s @ map (\<lambda>part. snd (sync_train eng (master_weights s) part)) rdd"
    and "parameter_server (snd (fit' eng s rdd)) = parameter_server s"
  using assms
  by (simp_all add: fit'_def Let_def log_event_def train_synchronous_def master_weights_def
      set_weights_def reconcile_snd comp_def)

lemma run_client_running: "ps_running (run_client k srv) = ps_running srv"
  by (induction k arbitrary: srv) (simp_all add: apply_delta_def)

lemma run_client_port: "ps_port (run_client k srv) = ps_port srv"
  by (induction k arbitrary: srv) (simp_all add: apply_delta_def)

lemma async_dispatch_running: "ps_running (async_dispatch eng w rdd srv) = ps_running srv"
  unfolding async_dispatch_def by (induction rdd arbitrary: srv) (simp_all add: run_client_running)

lemma async_dispatch_port: "ps_port (async_dispatch eng w rdd srv) = ps_port srv"
  unfolding async_dispatch_def by (induction rdd arbitrary: srv) (simp_all add: run_client_port)


lemma fit'_asynchronous:
  assumes "mode s = ''asynchronous'' \<or> mode s = ''hogwild''"
    and "parameter_server s = Some srv" and "client s = Some (ps_port srv)"
  shows "fst (fit' eng s rdd) = None"
    and "master_weights (snd (fit' eng s rdd)) =
           ps_weights (async_dispatch eng (master_weights s) rdd (srv\<lparr>ps_running := True\<rparr>))"
    and "trace (snd (fit' eng s rdd)) =
           trace s @ [Compile, Start_server, Broadcast, Dispatch, Get_parameters, Set_weights, Stop_server]"
    and "parameter_server (snd (fit' eng s rdd)) =
           Some ((async_dispatch eng (master_weights s) rdd (srv\<lparr>ps_running := True\<rparr>))\<lparr>ps_running := False\<rparr>)"
  using assms
  by (simp_all add: fit'_def Let_def log_event_def train_asynchronous_def master_weights_def
      set_weights_def start_server_def stop_server_def client_get_parameters_def
      async_dispatch_running async_dispatch_port)

lemma demo_model_constructed:
  "new_model SparkModel demo_network [(''mode'', JStr ''hogwild'')] = Inr (demo_model ''hogwild'')"
  "new_model SparkModel demo_network [(''mode'', JStr ''synchronous'')] = Inr (demo_model ''synchronous'')"
  "new_model SparkModel demo_network [] = Inr (demo_model ''asynchronous'')"
  by (simp_all add: new_model_def demo_model_def demo_network_def then_do_def arg_str_def arg_int_def
      arg_int_opt_def get_factory_def create_server_def named_params_def)

lemma weightset_eqI:
  assumes "same_shape a w" and "same_shape b w"
    and "\<And>i j. i < length w \<Longrightarrow> j < length (w ! i) \<Longrightarrow> a ! i ! j = b ! i ! j"
  shows "a = b"
proof (rule nth_equalityI)
  show "length a = length b" using assms(1,2) by (simp add: same_shape_length)
next
  fix i assume i: "i < length a"
  then have iw: "i < length w" using same_shape_length [OF assms(1)] by simp
  have ib: "i < length b" using iw same_shape_length [OF assms(2)] by simp
  have la: "length (a ! i) = length (w ! i)" using same_shape_nth [OF assms(1) i] .
  have lb: "length (b ! i) = length (w ! i)" using same_shape_nth [OF assms(2) ib] .
  show "a ! i = b ! i"
  proof (rule nth_equalityI)
    show "length (a ! i) = length (b ! i)" using la lb by simp
  next
    fix j assume "j < length (a ! i)"
    then show "a ! i ! j = b ! i ! j" using assms(3) [OF iw] la by simp
  qed
qed

lemma sum_list_mset_cong:
  fixes f :: "'a \<Rightarrow> real"
  assumes "mset xs = mset ys" shows "sum_list (map f xs) = sum_list (map f ys)"
proof -
  have "sum_list (map f xs) = sum_mset (image_mset f (mset xs))"
    by (metis mset_map sum_mset_sum_list)
  also have "\<dots> = sum_mset (image_mset f (mset ys))" using assms by simp
  also have "\<dots> = sum_list (map f ys)" by (metis mset_map sum_mset_sum_list)
  finally show ?thesis .
qed

lemma sync_weights_shape:
  assumes "mode s = ''synchronous''"
    and "\<forall>part \<in> set rdd. same_shape (fst (sync_train eng (master_weights s) part)) (master_weights s)"
  shows "same_shape (master_weights (snd (fit' eng s rdd))) (master_weights s)"
  using assms by (simp add: fit'_synchronous(2) reconcile_shape)

lemma sync_weights_nth:
  assumes "mode s = ''synchronous''"
    and "\<forall>part \<in> set rdd. same_shape (fst (sync_train eng (master_weights s) part)) (master_weights s)"
    and "i < length (master_weights s)" and "j < length (master_weights s ! i)"
  shows "master_weights (snd (fit' eng s rdd)) ! i ! j =
           master_weights s ! i ! j -
           (\<Sum>part\<leftarrow>rdd. fst (sync_train eng (master_weights s) part) ! i ! j / real (length rdd))"
proof -
  have "\<forall>g \<in> set (map fst (map (sync_train eng (master_weights s)) rdd)). same_shape g (master_weights s)"
    using assms(2) by simp
  from reconcile_nth [OF this assms(3,4)] show ?thesis
    by (simp add: fit'_synchronous(2) [OF assms(1)] comp_def)
qed

lemma sync_weights_order:
  assumes "mode s = ''synchronous''"
    and "\<forall>part \<in> set rdd. same_shape (fst (sync_train eng (master_weights s) part)) (master_weights s)"
    and "mset rdd' = mset rdd"
  shows "master_weights (snd (fit' eng s rdd')) = master_weights (snd (fit' eng s rdd))"
proof (rule weightset_eqI)
  have set_eq: "set rdd' = set rdd" using assms(3) by (rule mset_eq_setD)
  have len_eq: "length rdd' = length rdd" using assms(3) by (rule mset_eq_length)
  have shapes': "\<forall>part \<in> set rdd'. same_shape (fst (sync_train eng (master_weights s) part)) (master_weights s)"
    using assms(2) set_eq by simp
  show "same_shape (master_weights (snd (fit' eng s rdd'))) (master_weights s)"
    using assms(1) shapes' by (rule sync_weights_shape)
  show "same_shape (master_weights (snd (fit' eng s rdd))) (master_weights s)"
    using assms(1,2) by (rule sync_weights_shape)
  fix i j assume ij: "i < length (master_weights s)" "j < length (master_weights s ! i)"
  show "master_weights (snd (fit' eng s rdd')) ! i ! j = master_weights (snd (fit' eng s rdd)) ! i ! j"
    unfolding sync_weights_nth [OF assms(1) shapes' ij] sync_weights_nth [OF assms(1,2) ij] len_eq
    using sum_list_mset_cong [OF assms(3)] by simp
qed

text \<open>
  Claim C1.  In the synchronous mode, \<^verbatim>\<open>_fit\<close> returns normally and leaves the master
  network with the weights it had before the call minus, entry by entry, the sum over
  all collected results of the result's gradient divided by the number of results; and
  the weights it leaves do not depend on the order in which the results are collected.
  The gradients are taken to have the shape of the master weights, which is the
  invariant of weight sets; the arithmetic is exact.
\<close>

theorem fit_synchronous_averages_gradients:
  assumes "mode s = ''synchronous''"
    and "\<forall>part \<in> set rdd. same_shape (fst (sync_train eng (master_weights s) part)) (master_weights s)"
  shows "fst (fit' eng s rdd) = None \<and>
     same_shape (master_weights (snd (fit' eng s rdd))) (master_weights s) \<and>
     (\<forall>i < length (master_weights s). \<forall>j < length (master_weights s ! i).
        master_weights (snd (fit' eng s rdd)) ! i ! j =
          master_weights s ! i ! j -
          (\<Sum>part\<leftarrow>rdd. fst (sync_train eng (master_weights s) part) ! i ! j / real (length rdd))) \<and>
     (\<forall>rdd'. mset rdd' = mset rdd \<longrightarrow>
        master_weights (snd (fit' eng s rdd')) = master_weights (snd (fit' eng s rdd)))"
  using fit'_synchronous(1) [OF assms(1)] sync_weights_shape [OF assms]
    sync_weights_nth [OF assms] sync_weights_order [OF assms]
  by blast

theorem fit_synchronous_averages_gradients_witness:
  "mode (demo_model ''synchronous'') = ''synchronous'' \<and>
   same_shape (fst (sync_train demo_engine (master_weights (demo_model ''synchronous'')) [1]))
     (master_weights (demo_model ''synchronous'')) \<and>
   same_shape (fst (sync_train demo_engine (master_weights (demo_model ''synchronous'')) [2, 3]))
     (master_weights (demo_model ''synchronous'')) \<and>
   fst (fit' demo_engine (demo_model ''synchronous'') [[1], [2, 3]]) = None \<and>
   master_weights (snd (fit' demo_engine (demo_model ''synchronous'') [[1], [2, 3]])) ! 0 ! 1 = -1 \<and>
   master_weights (snd (fit' demo_engine (demo_model ''synchronous'') [[2, 3], [1]])) =
     master_weights (snd (fit' demo_engine (demo_model ''synchronous'') [[1], [2, 3]]))"
proof -
  have m: "mode (demo_model ''synchronous'') = ''synchronous''"
    by (simp add: demo_model_def)
  have sh: "\<forall>part \<in> set [[1], [2, 3 :: real]].
      same_shape (fst (sync_train demo_engine (master_weights (demo_model ''synchronous'')) part))
        (master_weights (demo_model ''synchronous''))"
    by (simp add: demo_model_def demo_engine_def demo_network_def master_weights_def same_shape_def)
  have w: "master_weights (demo_model ''synchronous'') = [[1, 2], [3]]"
    by (simp add: demo_model_def demo_network_def master_weights_def)
  note t = fit_synchronous_averages_gradients [OF m sh]
  note t3 = t [THEN conjunct2, THEN conjunct2, THEN conjunct1, rule_format, of 0 1]
  note t4 = t [THEN conjunct2, THEN conjunct2, THEN conjunct2, rule_format, of "[[2, 3], [1]]"]
  have c3: "master_weights (snd (fit' demo_engine (demo_model ''synchronous'') [[1], [2, 3]])) ! 0 ! 1 = -1"
    using t3 by (simp add: w demo_engine_def)
  have c4: "master_weights (snd (fit' demo_engine (demo_model ''synchronous'') [[2, 3], [1]])) =
     master_weights (snd (fit' demo_engine (demo_model ''synchronous'') [[1], [2, 3]]))"
    using t4 by simp
  show ?thesis using m sh t [THEN conjunct1] c3 c4 by simp
qed

lemma run_client_weights:
  "ps_weights (run_client k srv) = fold (\<lambda>delta w. subtract_params w delta) (deltas_sent k srv) (ps_weights srv)"
  by (induction k arbitrary: srv) (simp_all add: apply_delta_def)

lemma fit'_single_push:
  assumes "mode s = ''asynchronous'' \<or> mode s = ''hogwild''"
    and "parameter_server s = Some srv" and "client s = Some (ps_port srv)"
    and "ps_weights srv = master_weights s"
    and "deltas_sent (async_train eng (master_weights s) part) (srv\<lparr>ps_running := True\<rparr>) = [delta]"
  shows "master_weights (snd (fit' eng s [part])) = subtract_params (master_weights s) delta"
  using assms by (simp add: fit'_asynchronous(2) async_dispatch_def run_client_weights)

text \<open>
  Claim C2.  In the modes asynchronous and hogwild, \<^verbatim>\<open>_fit\<close> returns normally; once
  the dispatch of the partition tasks is over it fetches the snapshot of the store
  through the client, sets exactly that snapshot as the weights of the master network,
  and the snapshot is still what the store holds when the call returns.  When the
  store starts from the master weights, as it does after construction, and the run has
  one partition whose worker pushes one delta, the master weights end as the initial
  weights minus that delta.
\<close>

theorem fit_asynchronous_sets_fetched_snapshot:
  assumes "mode s = ''asynchronous'' \<or> mode s = ''hogwild''"
    and "parameter_server s = Some srv" and "client s = Some (ps_port srv)"
  shows "fst (fit' eng s rdd) = None \<and>
     trace (snd (fit' eng s rdd)) =
       trace s @ [Compile, Start_server, Broadcast, Dispatch, Get_parameters, Set_weights, Stop_server] \<and>
     client_get_parameters
       (s\<lparr>parameter_server :=
            Some (async_dispatch eng (master_weights s) rdd (srv\<lparr>ps_running := True\<rparr>))\<rparr>) =
       Inr (master_weights (snd (fit' eng s rdd))) \<and>
     map_option ps_weights (parameter_server (snd (fit' eng s rdd))) =
       Some (master_weights (snd (fit' eng s rdd))) \<and>
     (\<forall>part delta.
        rdd = [part] \<and> ps_weights srv = master_weights s \<and>
        deltas_sent (async_train eng (master_weights s) part) (srv\<lparr>ps_running := True\<rparr>) = [delta] \<longrightarrow>
        master_weights (snd (fit' eng s rdd)) = subtract_params (master_weights s) delta)"
proof -
  note f = fit'_asynchronous [OF assms, of eng rdd]
  have g: "client_get_parameters
       (s\<lparr>parameter_server :=
            Some (async_dispatch eng (master_weights s) rdd (srv\<lparr>ps_running := True\<rparr>))\<rparr>) =
       Inr (master_weights (snd (fit' eng s rdd)))"
    using assms(3)
    by (simp add: f(2) client_get_parameters_def async_dispatch_running async_dispatch_port)
  have p: "map_option ps_weights (parameter_server (snd (fit' eng s rdd))) =
       Some (master_weights (snd (fit' eng s rdd)))"
    by (simp add: f(2,4))
  show ?thesis
    using f(1,3) g p fit'_single_push [OF assms] by blast
qed

theorem fit_asynchronous_sets_fetched_snapshot_witness:
  "(mode (demo_model ''asynchronous'') = ''asynchronous'' \<or> mode (demo_model ''asynchronous'') = ''hogwild'') \<and>
   parameter_server (demo_model ''asynchronous'') =
     Some \<lparr>ps_weights = [[1, 2], [3]], ps_port = 4000, ps_mode = ''asynchronous'', ps_running = False\<rparr> \<and>
   client (demo_model ''asynchronous'') = Some 4000 \<and>
   fst (fit' demo_engine (demo_model ''asynchronous'') [[2, 3]]) = None \<and>
   master_weights (snd (fit' demo_engine (demo_model ''asynchronous'') [[2, 3]])) =
     subtract_params [[1, 2], [3]] [[5, 5], [5]] \<and>
   master_weights (snd (fit' demo_engine (demo_model ''asynchronous'') [[2, 3]])) = [[-4, -3], [-2]]"
proof -
  let ?srv = "\<lparr>ps_weights = [[1, 2], [3]], ps_port = 4000, ps_mode = ''asynchronous'', ps_running = False\<rparr>"
  have m: "mode (demo_model ''asynchronous'') = ''asynchronous'' \<or> mode (demo_model ''asynchronous'') = ''hogwild''"
    by (simp add: demo_model_def)
  have p: "parameter_server (demo_model ''asynchronous'') = Some ?srv"
    by (simp add: demo_model_def)
  have c: "client (demo_model ''asynchronous'') = Some (ps_port ?srv)"
    by (simp add: demo_model_def)
  have w: "master_weights (demo_model ''asynchronous'') = [[1, 2], [3]]"
    by (simp add: demo_model_def demo_network_def master_weights_def)
  note t = fit_asynchronous_sets_fetched_snapshot [OF m p c, of demo_engine "[[2, 3]]"]
  note t5 = t [THEN conjunct2, THEN conjunct2, THEN conjunct2, THEN conjunct2, rule_format,
      of "[2, 3]" "[[5, 5], [5]]"]
  have d: "master_weights (snd (fit' demo_engine (demo_model ''asynchronous'') [[2, 3]])) =
     subtract_params [[1, 2], [3]] [[5, 5], [5]]"
    using t5 by (simp add: w demo_engine_def)
  then have e: "master_weights (snd (fit' demo_engine (demo_model ''asynchronous'') [[2, 3]])) = [[-4, -3], [-2]]"
    by (simp add: subtract_params_def)
  show ?thesis using m p c t [THEN conjunct1] d e by simp
qed

text \<open>
  Claim C6.  With a mode that is none of asynchronous, synchronous and hogwild,
  \<^verbatim>\<open>fit\<close> raises a \<open>ValueError\<close> and leaves the orchestrator exactly as it was:
  nothing is compiled, started or dispatched and the master weights are unchanged.
  \<^verbatim>\<open>_fit\<close>, which \<^verbatim>\<open>SparkMLlibModel.fit\<close> calls without that check, raises a
  \<open>ValueError\<close> as well, after compiling and broadcasting only.
\<close>

theorem fit_rejects_unsupported_mode:
  assumes "mode s \<notin> {''asynchronous'', ''synchronous'', ''hogwild''}"
  shows "fit eng s rdd =
           (Some (ValueError ''Choose from one of the modes: asynchronous, synchronous or hogwild''), s) \<and>
         fit' eng s rdd =
           (Some (ValueError (''Unsupported mode '' @ mode s)), s\<lparr>trace := trace s @ [Compile, Broadcast]\<rparr>)"
  using assms by (simp add: fit_def fit'_def Let_def log_event_def)

theorem fit_rejects_unsupported_mode_witness:
  "mode (demo_model ''sync'') \<notin> {''asynchronous'', ''synchronous'', ''hogwild''} \<and>
   fst (fit demo_engine (demo_model ''sync'') [[1], [2, 3]]) =
     Some (ValueError ''Choose from one of the modes: asynchronous, synchronous or hogwild'') \<and>
   master_weights (snd (fit demo_engine (demo_model ''sync'') [[1], [2, 3]])) = [[1, 2], [3]] \<and>
   trace (snd (fit demo_engine (demo_model ''sync'') [[1], [2, 3]])) = []"
proof -
  have m: "mode (demo_model ''sync'') \<notin> {''asynchronous'', ''synchronous'', ''hogwild''}"
    by (simp add: demo_model_def)
  note t = fit_rejects_unsupported_mode [OF m, of demo_engine "[[1], [2, 3]]", THEN conjunct1]
  show ?thesis using m by (simp add: t) (simp add: demo_model_def demo_network_def master_weights_def)
qed

lemma then_do_Inr: "then_do r f = Inr v \<longleftrightarrow> (\<exists>x. r = Inr x \<and> f x = Inr v)"
  by (cases r) (simp_all add: then_do_def)

lemma new_model_fields:
  assumes "new_model c model kws = Inr s"
  shows "cls s = c" and "master_network s = model" and "has_loss model"
    and "kwargs s = filter (\<lambda>kv. fst kv \<notin> set (named_params c)) kws"
    and "distinct (map fst kws)"
    and "mode s \<noteq> ''synchronous'' \<Longrightarrow>
           parameter_server s = Some (create_server model (port s) (mode s)) \<and> client s = Some (port s) \<and>
           (\<exists>f. get_factory (parameter_server_mode s) = Inr f)"
    and "mode s = ''synchronous'' \<Longrightarrow> parameter_server s = None \<and> client s = None"
    and "trace s = []" and "training_histories s = []"
  using assms
  by (auto simp add: new_model_def then_do_Inr Let_def split: if_splits)

lemma new_model_server_invariant:
  assumes "new_model c model kws = Inr s" shows "server_invariant s"
  using new_model_fields(6,7) [OF assms]
  by (cases "mode s = ''synchronous''") (auto simp add: server_invariant_def create_server_def)

lemma server_invariant_cases:
  assumes "server_invariant s"
  shows "mode s = ''synchronous'' \<and> parameter_server s = None \<and> client s = None \<or>
         mode s \<noteq> ''synchronous'' \<and> (\<exists>srv. parameter_server s = Some srv \<and> client s = Some (ps_port srv))"
  using assms by (auto simp add: server_invariant_def split: option.splits)

text \<open>
  Claim C7, as the code has it.  A construction that succeeds creates the server and the
  client exactly when the mode is not synchronous.  A call of \<^verbatim>\<open>_fit\<close> in the mode
  asynchronous or hogwild starts the server before the dispatch, fetches the parameters
  after it, sets the weights of the master network and stops the server last; a call
  in the synchronous mode neither starts nor stops a server.
\<close>

theorem server_lifecycle:
  fixes s0 s :: "'h spark_model" and eng :: "('d, 'h) engine"
  shows "(new_model c model kws = Inr s0 \<longrightarrow>
            (parameter_server s0 \<noteq> None) = (mode s0 \<noteq> ''synchronous'') \<and>
            (client s0 \<noteq> None) = (mode s0 \<noteq> ''synchronous'')) \<and>
         (server_invariant s \<and> (mode s = ''asynchronous'' \<or> mode s = ''hogwild'') \<longrightarrow>
            fst (fit' eng s rdd) = None \<and>
            trace (snd (fit' eng s rdd)) =
              trace s @ [Compile, Start_server, Broadcast, Dispatch, Get_parameters, Set_weights,
                         Stop_server]) \<and>
         (mode s = ''synchronous'' \<longrightarrow>
            fst (fit' eng s rdd) = None \<and>
            trace (snd (fit' eng s rdd)) = trace s @ [Compile, Broadcast, Dispatch, Set_weights] \<and>
            parameter_server (snd (fit' eng s rdd)) = parameter_server s)"
proof (intro conjI impI)
  assume a: "new_model c model kws = Inr s0"
  show "(parameter_server s0 \<noteq> None) = (mode s0 \<noteq> ''synchronous'')"
    using new_model_fields(6,7) [OF a] by auto
  show "(client s0 \<noteq> None) = (mode s0 \<noteq> ''synchronous'')"
    using new_model_fields(6,7) [OF a] by auto
next
  assume a: "server_invariant s \<and> (mode s = ''asynchronous'' \<or> mode s = ''hogwild'')"
  then obtain srv where srv: "parameter_server s = Some srv" "client s = Some (ps_port srv)"
    using server_invariant_cases [of s] by auto
  from a have m: "mode s = ''asynchronous'' \<or> mode s = ''hogwild''" by simp
  show "fst (fit' eng s rdd) = None"
    using fit'_asynchronous(1) [OF m srv] .
  show "trace (snd (fit' eng s rdd)) =
      trace s @ [Compile, Start_server, Broadcast, Dispatch, Get_parameters, Set_weights, Stop_server]"
    using fit'_asynchronous(3) [OF m srv] .
next
  assume m: "mode s = ''synchronous''"
  show "fst (fit' eng s rdd) = None" using fit'_synchronous(1) [OF m] .
  show "trace (snd (fit' eng s rdd)) = trace s @ [Compile, Broadcast, Dispatch, Set_weights]"
    using fit'_synchronous(3) [OF m] .
  show "parameter_server (snd (fit' eng s rdd)) = parameter_server s"
    using fit'_synchronous(5) [OF m] .
qed

theorem server_lifecycle_witness:
  "new_model SparkModel demo_network [(''mode'', JStr ''hogwild'')] = Inr (demo_model ''hogwild'') \<and>
   parameter_server (demo_model ''hogwild'') \<noteq> None \<and>
   client (demo_model ''hogwild'') \<noteq> None \<and>
   server_invariant (demo_model ''hogwild'') \<and>
   trace (snd (fit' demo_engine (demo_model ''hogwild'') [[1], [2, 3]])) =
     [Compile, Start_server, Broadcast, Dispatch, Get_parameters, Set_weights, Stop_server] \<and>
   new_model SparkModel demo_network [(''mode'', JStr ''synchronous'')] = Inr (demo_model ''synchronous'') \<and>
   parameter_server (demo_model ''synchronous'') = None \<and>
   client (demo_model ''synchronous'') = None \<and>
   trace (snd (fit' demo_engine (demo_model ''synchronous'') [[1], [2, 3]])) =
     [Compile, Broadcast, Dispatch, Set_weights]"
proof -
  note h = demo_model_constructed(1)
  note y = demo_model_constructed(2)
  have ih: "server_invariant (demo_model ''hogwild'')"
    by (simp add: server_invariant_def demo_model_def)
  have mh: "mode (demo_model ''hogwild'') = ''hogwild''" by (simp add: demo_model_def)
  have my: "mode (demo_model ''synchronous'') = ''synchronous''" by (simp add: demo_model_def)
  have th: "trace (demo_model ''hogwild'') = []" by (simp add: demo_model_def)
  have ty: "trace (demo_model ''synchronous'') = []" by (simp add: demo_model_def)
  note t1 = server_lifecycle [of SparkModel demo_network "[(''mode'', JStr ''hogwild'')]"
      "demo_model ''hogwild''" "demo_model ''hogwild''" demo_engine "[[1], [2, 3]]"]
  note t2 = server_lifecycle [of SparkModel demo_network "[(''mode'', JStr ''synchronous'')]"
      "demo_model ''synchronous''" "demo_model ''synchronous''" demo_engine "[[1], [2, 3]]"]
  have a: "parameter_server (demo_model ''hogwild'') \<noteq> None \<and> client (demo_model ''hogwild'') \<noteq> None"
    using t1 [THEN conjunct1] h mh by simp
  have b: "trace (snd (fit' demo_engine (demo_model ''hogwild'') [[1], [2, 3]])) =
     [Compile, Start_server, Broadcast, Dispatch, Get_parameters, Set_weights, Stop_server]"
    using t1 [THEN conjunct2, THEN conjunct1] ih mh th by simp
  have c: "parameter_server (demo_model ''synchronous'') = None \<and> client (demo_model ''synchronous'') = None"
    using t2 [THEN conjunct1] y my by simp
  have d: "trace (snd (fit' demo_engine (demo_model ''synchronous'') [[1], [2, 3]])) =
     [Compile, Broadcast, Dispatch, Set_weights]"
    using t2 [THEN conjunct2, THEN conjunct2] my ty by simp
  show ?thesis using h y ih a b c d by simp
qed

theorem server_stopped_after_weights_set:
  "fst (fit' demo_engine (demo_model ''hogwild'') [[1], [2, 3]]) = None \<and>
   precedes Set_weights Stop_server (trace (snd (fit' demo_engine (demo_model ''hogwild'') [[1], [2, 3]]))) \<and>
   \<not> precedes Stop_server Set_weights (trace (snd (fit' demo_engine (demo_model ''hogwild'') [[1], [2, 3]])))"
proof -
  have m: "mode (demo_model ''hogwild'') = ''asynchronous'' \<or> mode (demo_model ''hogwild'') = ''hogwild''"
    by (simp add: demo_model_def)
  have p: "parameter_server (demo_model ''hogwild'') =
      Some \<lparr>ps_weights = [[1, 2], [3]], ps_port = 4000, ps_mode = ''hogwild'', ps_running = False\<rparr>"
    by (simp add: demo_model_def)
  have c: "client (demo_model ''hogwild'') =
      Some (ps_port \<lparr>ps_weights = [[1, 2], [3]], ps_port = 4000, ps_mode = ''hogwild'', ps_running = False\<rparr>)"
    by (simp add: demo_model_def)
  have t: "trace (demo_model ''hogwild'') = []" by (simp add: demo_model_def)
  show ?thesis
    by (simp add: fit'_asynchronous(1,3) [OF m p c] t precedes_def)
qed

subsection \<open>What a call of fit keeps\<close>

text \<open>
  For a supported mode \<^verbatim>\<open>fit\<close> is \<^verbatim>\<open>_fit\<close> on the repartitioned RDD, and
  \<^verbatim>\<open>_fit\<close> keeps what the construction established.
\<close>

lemma fit_supported_mode:
  "mode s \<in> {''asynchronous'', ''synchronous'', ''hogwild''} \<Longrightarrow>
   fit eng s rdd =
     fit' eng s (if truthy (num_workers s) then repartition eng (the (num_workers s)) rdd else rdd)"
  by (simp add: fit_def Let_def)

lemma train_asynchronous_frame:
  "mode (snd (train_asynchronous eng s w rdd)) = mode s \<and>
   client (snd (train_asynchronous eng s w rdd)) = client s \<and>
   cls (snd (train_asynchronous eng s w rdd)) = cls s \<and>
   kwargs (snd (train_asynchronous eng s w rdd)) = kwargs s \<and>
   parameter_server_mode (snd (train_asynchronous eng s w rdd)) = parameter_server_mode s \<and>
   has_loss (master_network (snd (train_asynchronous eng s w rdd))) = has_loss (master_network s)"
  by (simp add: train_asynchronous_def Let_def log_event_def split: option.splits)

lemma train_synchronous_frame:
  "mode (snd (train_synchronous eng s w rdd)) = mode s \<and>
   client (snd (train_synchronous eng s w rdd)) = client s \<and>
   cls (snd (train_synchronous eng s w rdd)) = cls s \<and>
   kwargs (snd (train_synchronous eng s w rdd)) = kwargs s \<and>
   parameter_server_mode (snd (train_synchronous eng s w rdd)) = parameter_server_mode s \<and>
   has_loss (master_network (snd (train_synchronous eng s w rdd))) = has_loss (master_network s)"
  by (simp add: train_synchronous_def Let_def log_event_def)

lemma fit'_frame:
  "mode (snd (fit' eng s rdd)) = mode s \<and>
   client (snd (fit' eng s rdd)) = client s \<and>
   cls (snd (fit' eng s rdd)) = cls s \<and>
   kwargs (snd (fit' eng s rdd)) = kwargs s \<and>
   parameter_server_mode (snd (fit' eng s rdd)) = parameter_server_mode s \<and>
   has_loss (master_network (snd (fit' eng s rdd))) = has_loss (master_network s)"
  by (auto simp add: fit'_def Let_def log_event_def start_server_def stop_server_def set_weights_def
      train_asynchronous_frame train_synchronous_frame
      split: sum.splits option.splits if_splits)

lemma fit'_preserves_well_formed:
  "well_formed s \<Longrightarrow> well_formed (snd (fit' eng s rdd))"
  using fit'_frame [of eng s rdd] by (simp add: well_formed_def)

lemma fit'_preserves_server_invariant:
  assumes "server_invariant s" shows "server_invariant (snd (fit' eng s rdd))"
proof -
  note fr = fit'_frame [of eng s rdd]
  consider (sync) "mode s = ''synchronous''"
    | (async) "mode s = ''asynchronous'' \<or> mode s = ''hogwild''"
    | (other) "mode s \<notin> {''asynchronous'', ''synchronous'', ''hogwild''}"
    by auto
  then show ?thesis
  proof cases
    case sync
    then show ?thesis
      using assms fr fit'_synchronous(5) [OF sync, of eng rdd]
      by (auto simp add: server_invariant_def split: option.splits)
  next
    case async
    then have "mode s \<noteq> ''synchronous''" by auto
    with assms obtain srv where srv: "parameter_server s = Some srv" "client s = Some (ps_port srv)"
      using server_invariant_cases [of s] by auto
    show ?thesis
      using fr \<open>mode s \<noteq> ''synchronous''\<close> srv(2)
      by (simp add: server_invariant_def fit'_asynchronous(4) [OF async srv] async_dispatch_port)
  next
    case other
    then have "snd (fit' eng s rdd) = s\<lparr>trace := trace s @ [Compile, Broadcast]\<rparr>"
      by (simp add: fit'_def Let_def log_event_def)
    then show ?thesis using assms by (auto simp add: server_invariant_def split: option.splits)
  qed
qed

section \<open>Properties of evaluation\<close>

lemma mapping_function_append:
  "mapping_function (vs @ [c]) = Inr (map (\<lambda>v. c * v) vs @ [c])"
proof -
  have "map (\<lambda>i. c * (vs @ [c]) ! i) [0..<length vs] = map (\<lambda>i. c * vs ! i) [0..<length vs]"
    by (simp add: nth_append)
  also have "\<dots> = map (\<lambda>v. c * v) (map (\<lambda>i. vs ! i) [0..<length vs])"
    by (simp add: comp_def)
  also have "\<dots> = map (\<lambda>v. c * v) vs"
    by (simp add: map_nth)
  finally show ?thesis by (simp add: mapping_function_def)
qed

lemma rdd_map_results:
  "rdd_map (rdd_map mapping_function) (map (evaluate_partition me) rdd) =
     Inr (map (\<lambda>p. [map (\<lambda>v. real (length p) * v) (as_list (me p)) @ [real (length p)]]) rdd)"
  by (induction rdd) (simp_all add: evaluate_partition_def mapping_function_append then_do_def)

lemma reduce_partitions_singletons:
  "reduce_partitions f (map (\<lambda>p. [g p]) rdd) = Inr (map g rdd)"
  by (induction rdd) (simp_all add: then_do_def)

lemma reduce_from_rows:
  "length r = n \<Longrightarrow> \<forall>x \<in> set rs. length x = n \<Longrightarrow>
   reduce_from reducing_function r rs = Inr (map (\<lambda>i. \<Sum>x\<leftarrow>r # rs. x ! i) [0..<n])"
proof (induction rs arbitrary: r)
  case Nil
  then have "map ((!) r) [0..<n] = r" using map_nth [of r] by simp
  then show ?case by simp
next
  case (Cons x rs)
  let ?r = "map (\<lambda>i. r ! i + x ! i) [0..<n]"
  have step: "reducing_function r x = Inr ?r"
    using Cons.prems by (simp add: reducing_function_def)
  have "length ?r = n" by simp
  moreover have "\<forall>y \<in> set rs. length y = n" using Cons.prems by simp
  ultimately have "reduce_from reducing_function ?r rs = Inr (map (\<lambda>i. \<Sum>y\<leftarrow>?r # rs. y ! i) [0..<n])"
    by (rule Cons.IH)
  moreover have "map (\<lambda>i. \<Sum>y\<leftarrow>?r # rs. y ! i) [0..<n] = map (\<lambda>i. \<Sum>y\<leftarrow>r # x # rs. y ! i) [0..<n]"
    by (rule map_cong) (simp_all add: add.assoc)
  ultimately show ?case by (simp add: step then_do_def)
qed

lemma real_length_concat: "real (length (concat xss)) = (\<Sum>p\<leftarrow>xss. real (length p))"
  by (induction xss) simp_all

lemma map_upt_ends: "0 < k \<Longrightarrow> map f [0..<Suc k] = f 0 # map f [Suc 0..<k] @ [f k]"
  using upt_conv_Cons [of 0 k] by simp

lemma map_upt_head: "0 < k \<Longrightarrow> map f [0..<k] = f 0 # map f [Suc 0..<k]"
  using upt_conv_Cons [of 0 k] by simp

lemma averaged_unpacked:
  "n \<noteq> 0 \<Longrightarrow>
   averaged (a0 # mid @ [n]) =
     Inr (if mid \<noteq> [] then Listed (a0 / n # map (\<lambda>m. m / n) mid) else Scalar (a0 / n))"
  by (simp add: averaged_def Let_def butlast_append)

lemma evaluate'_weighted:
  fixes me :: "'d list \<Rightarrow> eval_result"
  assumes parts: "parts = (case num_workers s of None \<Rightarrow> rdd0
                           | Some n \<Rightarrow> if n \<noteq> 0 then repartition_rdd n rdd0 else rdd0)"
    and me: "me = model_evaluate (master_weights s)"
    and len: "\<forall>p \<in> set parts. length (as_list (me p)) = k"
    and k: "0 < k"
    and ne: "concat parts \<noteq> []"
  shows "\<exists>res. evaluate' repartition_rdd model_evaluate s rdd0 = Inr res \<and>
           (k = 1 \<longrightarrow> res = Scalar (hd (as_list res))) \<and>
           as_list res =
             map (\<lambda>i. (\<Sum>p\<leftarrow>parts. real (length p) * as_list (me p) ! i) / real (length (concat parts)))
               [0..<k]"
proof -
  let ?row = "\<lambda>p. map (\<lambda>v. real (length p) * v) (as_list (me p)) @ [real (length p)]"
  define N where "N = real (length (concat parts))"
  define f where "f = (\<lambda>i. \<Sum>x\<leftarrow>map ?row parts. x ! i)"
  define g where "g = (\<lambda>i. \<Sum>p\<leftarrow>parts. real (length p) * as_list (me p) ! i)"
  from ne obtain p0 ps where ps: "parts = p0 # ps" by (cases parts) auto
  have rows: "\<forall>x \<in> set (map ?row parts). length x = Suc k" using len by simp
  have red: "rdd_reduce reducing_function (map (\<lambda>p. [?row p]) parts) = Inr (map f [0..<Suc k])"
  proof -
    have "reduce_from reducing_function (?row p0) (map ?row ps) =
            Inr (map (\<lambda>i. \<Sum>x\<leftarrow>?row p0 # map ?row ps. x ! i) [0..<Suc k])"
      by (rule reduce_from_rows) (use rows ps in simp_all)
    then show ?thesis
      by (simp add: rdd_reduce_def reduce_partitions_singletons then_do_def ps f_def del: upt_Suc)
  qed
  have sum_i: "f i = g i" if "i < k" for i
  proof -
    have "f i = sum_list (map (\<lambda>p. ?row p ! i) parts)"
      by (simp add: comp_def f_def)
    also have "\<dots> = sum_list (map (\<lambda>p. real (length p) * as_list (me p) ! i) parts)"
      by (rule arg_cong [where f = sum_list], rule map_cong)
        (use len that in \<open>simp_all add: nth_append\<close>)
    finally show ?thesis by (simp add: g_def)
  qed
  have sum_k: "f k = N"
  proof -
    have "f k = sum_list (map (\<lambda>p. ?row p ! k) parts)"
      by (simp add: comp_def f_def)
    also have "\<dots> = sum_list (map (\<lambda>p. real (length p)) parts)"
      by (rule arg_cong [where f = sum_list], rule map_cong)
        (use len in \<open>simp_all add: nth_append\<close>)
    finally show ?thesis by (simp add: real_length_concat N_def)
  qed
  have N: "N \<noteq> 0" using ne by (simp add: N_def)
  define mid where "mid = map f [Suc 0..<k]"
  have agg: "map f [0..<Suc k] = f 0 # mid @ [N]"
    unfolding mid_def using map_upt_ends [OF k, of f] sum_k by simp
  define res where "res = (if mid \<noteq> [] then Listed (f 0 / N # map (\<lambda>m. m / N) mid)
      else Scalar (f 0 / N))"
  have "evaluate' repartition_rdd model_evaluate s rdd0 =
      then_do (Inr (map (\<lambda>p. [?row p]) parts))
        (\<lambda>mapped. then_do (rdd_reduce reducing_function mapped) averaged)"
    unfolding evaluate'_def Let_def parts [symmetric] me [symmetric] rdd_map_results ..
  also have "\<dots> = then_do (rdd_reduce reducing_function (map (\<lambda>p. [?row p]) parts)) averaged"
    by (simp only: then_do_def sum.case)
  also have "\<dots> = averaged (f 0 # mid @ [N])"
    unfolding red agg by (simp only: then_do_def sum.case)
  also have "\<dots> = Inr res"
    unfolding res_def by (rule averaged_unpacked [OF N])
  finally have ev: "evaluate' repartition_rdd model_evaluate s rdd0 = Inr res" .
  have as: "as_list res = f 0 / N # map (\<lambda>m. m / N) mid"
    by (simp add: res_def as_list_def)
  have sc: "res = Scalar (hd (as_list res))" if "k = 1"
  proof -
    have "mid = []" using that by (simp add: mid_def)
    then show ?thesis by (simp add: res_def as_list_def)
  qed
  have mid_g: "map (\<lambda>m. m / N) mid = map (\<lambda>i. g i / N) [Suc 0..<k]"
    unfolding mid_def by (simp add: sum_i)
  have avg: "as_list res = map (\<lambda>i. g i / N) [0..<k]"
    unfolding as mid_g map_upt_head [OF k, of "\<lambda>i. g i / N"] by (simp only: sum_i [OF k])
  show ?thesis
  proof (intro exI [of _ res] conjI impI)
    show "evaluate' repartition_rdd model_evaluate s rdd0 = Inr res" by (rule ev)
    show "res = Scalar (hd (as_list res))" if "k = 1" using that by (rule sc)
    show "as_list res =
        map (\<lambda>i. (\<Sum>p\<leftarrow>parts. real (length p) * as_list (me p) ! i) / real (length (concat parts)))
          [0..<k]"
      using avg unfolding g_def N_def .
  qed
qed

text \<open>
  Claim C3.  \<^verbatim>\<open>_evaluate\<close> returns the size-weighted average of the results of the
  partitions: every value of the result, the loss first and the metrics after it, is
  the sum over the partitions of the partition's value times the partition's sample
  count, divided by the total sample count; with a loss and no metrics the result is
  the scalar.  For two partitions the loss is
  \<open>(L1 * m + L2 * n) / (m + n)\<close>.  The partitions are those that are evaluated, after
  the optional repartitioning; every partition returns the same number \<open>k \<ge> 1\<close>
  of values and there is at least one sample.
\<close>

theorem evaluate_size_weighted_average:
  fixes me :: "'d list \<Rightarrow> eval_result"
  assumes "parts = (case num_workers s of None \<Rightarrow> rdd0
                    | Some n \<Rightarrow> if n \<noteq> 0 then repartition_rdd n rdd0 else rdd0)"
    and "me = model_evaluate (master_weights s)"
    and "\<forall>p \<in> set parts. length (as_list (me p)) = k"
    and "0 < k"
    and "concat parts \<noteq> []"
  shows "\<exists>res. evaluate' repartition_rdd model_evaluate s rdd0 = Inr res \<and>
           (k = 1 \<longrightarrow> res = Scalar (hd (as_list res))) \<and>
           as_list res =
             map (\<lambda>i. (\<Sum>p\<leftarrow>parts. real (length p) * as_list (me p) ! i) / real (length (concat parts)))
               [0..<k] \<and>
           (\<forall>p1 p2. parts = [p1, p2] \<longrightarrow>
              hd (as_list res) =
                (hd (as_list (me p1)) * real (length p1) + hd (as_list (me p2)) * real (length p2)) /
                real (length p1 + length p2))"
proof -
  from evaluate'_weighted [where repartition_rdd = repartition_rdd and model_evaluate = model_evaluate, OF assms]
  obtain res where
    ev: "evaluate' repartition_rdd model_evaluate s rdd0 = Inr res"
    and sc: "k = 1 \<longrightarrow> res = Scalar (hd (as_list res))"
    and avg: "as_list res =
             map (\<lambda>i. (\<Sum>p\<leftarrow>parts. real (length p) * as_list (me p) ! i) / real (length (concat parts)))
               [0..<k]"
    by blast
  have two: "hd (as_list res) =
        (hd (as_list (me p1)) * real (length p1) + hd (as_list (me p2)) * real (length p2)) /
        real (length p1 + length p2)" if p: "parts = [p1, p2]" for p1 p2
  proof -
    have l1: "as_list (me p1) \<noteq> []" and l2: "as_list (me p2) \<noteq> []"
      using assms(3,4) p by auto
    have "hd (as_list res) =
        (\<Sum>p\<leftarrow>parts. real (length p) * as_list (me p) ! 0) / real (length (concat parts))"
      unfolding avg map_upt_head [OF assms(4)] by simp
    then show ?thesis using l1 l2 by (simp add: p hd_conv_nth mult.commute)
  qed
  show ?thesis using ev sc avg two by blast
qed

theorem evaluate_size_weighted_average_witness:
  "[[4], [1, 1, 1 :: real]] =
     (case num_workers (demo_model ''synchronous'') of None \<Rightarrow> [[4], [1, 1, 1]]
      | Some n \<Rightarrow> if n \<noteq> 0 then (\<lambda>n rdd. rdd) n [[4], [1, 1, 1]] else [[4], [1, 1, 1]]) \<and>
   length (as_list (Scalar (sum_list [4 :: real]))) = 1 \<and>
   length (as_list (Scalar (sum_list [1, 1, 1 :: real]))) = 1 \<and>
   concat [[4], [1, 1, 1 :: real]] \<noteq> [] \<and>
   evaluate' (\<lambda>n rdd. rdd) (\<lambda>w part. Scalar (sum_list part)) (demo_model ''synchronous'')
     [[4], [1, 1, 1]] = Inr (Scalar (13 / 4)) \<and>
   (13 / 4 :: real) \<noteq> (4 + 3) / 2"
proof -
  let ?rdd = "[[4], [1, 1, 1 :: real]]"
  let ?me = "\<lambda>part :: real list. Scalar (sum_list part)"
  have h1: "?rdd = (case num_workers (demo_model ''synchronous'') of None \<Rightarrow> ?rdd
      | Some n \<Rightarrow> if n \<noteq> 0 then (\<lambda>n rdd. rdd) n ?rdd else ?rdd)"
    by (simp add: demo_model_def)
  have h2: "?me = (\<lambda>w part. Scalar (sum_list part)) (master_weights (demo_model ''synchronous''))"
    by simp
  have h3: "\<forall>p \<in> set ?rdd. length (as_list (?me p)) = 1"
    by (simp add: as_list_def)
  have h4: "0 < (1 :: nat)" by simp
  have h5: "concat ?rdd \<noteq> []" by simp
  from evaluate_size_weighted_average [where repartition_rdd = "\<lambda>n rdd. rdd"
      and model_evaluate = "\<lambda>w part. Scalar (sum_list part)", OF h1 h2 h3 h4 h5]
  obtain res where
    ev: "evaluate' (\<lambda>n rdd. rdd) (\<lambda>w part. Scalar (sum_list part)) (demo_model ''synchronous'') ?rdd = Inr res"
    and sc: "res = Scalar (hd (as_list res))"
    and two: "\<forall>p1 p2. ?rdd = [p1, p2] \<longrightarrow>
              hd (as_list res) =
                (hd (as_list (?me p1)) * real (length p1) + hd (as_list (?me p2)) * real (length p2)) /
                real (length p1 + length p2)"
    by blast
  from two [rule_format, of "[4]" "[1, 1, 1]"] have "hd (as_list res) = 13 / 4"
    by (simp add: as_list_def)
  with sc have "res = Scalar (13 / 4)" by simp
  with ev h1 h5 show ?thesis by (simp add: as_list_def)
qed

section \<open>Properties of saving and loading\<close>

lemma new_model_well_formed:
  assumes "new_model c model kws = Inr s" shows "well_formed s"
proof -
  note f = new_model_fields [OF assms]
  have "distinct (map fst (kwargs s))"
    unfolding f(4) using f(5) by (simp add: distinct_map_filter)
  moreover have "set (map fst (kwargs s)) \<inter> set (named_params (cls s)) = {}"
    unfolding f(4) f(1) by auto
  moreover have "mode s = ''synchronous'' \<or>
      get_factory (parameter_server_mode s) \<noteq> Inl (ValueError ''Unknown parameter server mode'')"
    using f(6) by auto
  ultimately show ?thesis using f(2,3) by (simp add: well_formed_def)
qed

lemma update_fresh: "k \<notin> fst ` set al \<Longrightarrow> AList.update k v al = al @ [(k, v)]"
  by (induction al) auto

lemma fold_update_fresh:
  "distinct (map fst kws) \<Longrightarrow> set (map fst kws) \<inter> set (map fst base) = {} \<Longrightarrow>
   fold (\<lambda>kv config. AList.update (fst kv) (snd kv) config) kws base = base @ kws"
proof (induction kws arbitrary: base)
  case Nil
  then show ?case by simp
next
  case (Cons kv kws)
  have "AList.update (fst kv) (snd kv) base = base @ [kv]"
    using Cons.prems(2) by (simp add: update_fresh)
  moreover have "fold (\<lambda>kv config. AList.update (fst kv) (snd kv) config) kws (base @ [kv]) = (base @ [kv]) @ kws"
    using Cons.prems by (intro Cons.IH) auto
  ultimately show ?case by simp
qed

lemma get_config_well_formed:
  assumes "well_formed s"
  shows "get_config s =
     [(''parameter_server_mode'', JStr (parameter_server_mode s)),
      (''mode'', JStr (mode s)),
      (''frequency'', JStr (frequency s)),
      (''num_workers'', (case num_workers s of None \<Rightarrow> JNull | Some n \<Rightarrow> JInt n)),
      (''batch_size'', JInt (batch_size s))] @ kwargs s"
proof -
  have d: "distinct (map fst (kwargs s))"
    and n: "set (map fst (kwargs s)) \<inter> set (named_params (cls s)) = {}"
    using assms by (simp_all add: well_formed_def)
  have "set [''parameter_server_mode'', ''mode'', ''frequency'', ''num_workers'', ''batch_size'']
      \<subseteq> set (named_params (cls s))"
    by (cases "cls s") (simp_all add: named_params_def)
  with n have "set (map fst (kwargs s)) \<inter>
      set [''parameter_server_mode'', ''mode'', ''frequency'', ''num_workers'', ''batch_size''] = {}"
    by blast
  then show ?thesis
    unfolding get_config_def Let_def
    by (intro fold_update_fresh [OF d]) simp
qed

lemma construct_saved_config:
  fixes s :: "'h spark_model"
  assumes "well_formed s"
  shows "\<exists>s' :: 'g spark_model.
           construct (cls s) (master_network s) (Some (JObj (get_config s))) = Inr (Some s') \<and>
           cls s' = cls s \<and> master_network s' = master_network s \<and>
           parameter_server_mode s' = parameter_server_mode s \<and> mode s' = mode s \<and>
           frequency s' = frequency s \<and> num_workers s' = num_workers s \<and>
           batch_size s' = batch_size s \<and> kwargs s' = kwargs s"
proof -
  let ?base = "[(''parameter_server_mode'', JStr (parameter_server_mode s)),
      (''mode'', JStr (mode s)),
      (''frequency'', JStr (frequency s)),
      (''num_workers'', (case num_workers s of None \<Rightarrow> JNull | Some n \<Rightarrow> JInt n)),
      (''batch_size'', JInt (batch_size s))]"
  let ?K = "?base @ kwargs s"
  have cfg: "get_config s = ?K" using assms by (rule get_config_well_formed)
  have d: "distinct (map fst (kwargs s))"
    and n: "set (map fst (kwargs s)) \<inter> set (named_params (cls s)) = {}"
    and l: "has_loss (master_network s)"
    and fac: "mode s = ''synchronous'' \<or>
      get_factory (parameter_server_mode s) \<noteq> Inl (ValueError ''Unknown parameter server mode'')"
    using assms by (simp_all add: well_formed_def)
  have named: "k \<in> set (named_params (cls s)) \<Longrightarrow> map_of (kwargs s) k = None" for k
    using n by (metis disjoint_iff map_of_eq_None_iff set_map)
  have common: "set [''model'', ''mode'', ''frequency'', ''parameter_server_mode'', ''num_workers'',
      ''custom_objects'', ''batch_size'', ''port''] \<subseteq> set (named_params (cls s))"
    by (cases "cls s") (simp_all add: named_params_def)
  have fresh: "k \<in> set [''model'', ''mode'', ''frequency'', ''parameter_server_mode'', ''num_workers'',
      ''custom_objects'', ''batch_size'', ''port''] \<Longrightarrow> k \<notin> fst ` set (kwargs s)" for k
    using common n by auto
  have dK: "distinct (map fst ?K)" using d fresh by auto
  have mK: "''model'' \<notin> set (map fst ?K)" using fresh [of "''model''"] by simp
  have a1: "arg_str ?K ''mode'' ''asynchronous'' = Inr (mode s)"
    by (simp add: arg_str_def)
  have a2: "arg_str ?K ''frequency'' ''epoch'' = Inr (frequency s)"
    by (simp add: arg_str_def)
  have a3: "arg_str ?K ''parameter_server_mode'' ''http'' = Inr (parameter_server_mode s)"
    by (simp add: arg_str_def)
  have a4: "arg_int_opt ?K ''num_workers'' dflt = Inr (num_workers s)" for dflt
    by (simp add: arg_int_opt_def split: option.splits)
  have a5: "arg_int ?K ''batch_size'' 32 = Inr (batch_size s)"
    by (simp add: arg_int_def)
  have a6: "arg_int ?K ''port'' 4000 = Inr 4000"
    using named [of "''port''"] common by (simp add: arg_int_def)
  have flt: "filter (\<lambda>kv. fst kv \<notin> set (named_params (cls s))) ?K = kwargs s"
  proof -
    have "filter (\<lambda>kv. fst kv \<notin> set (named_params (cls s))) (kwargs s) = kwargs s"
      using n by (intro filter_True) auto
    moreover have "filter (\<lambda>kv. fst kv \<notin> set (named_params (cls s))) ?base = []"
      by (cases "cls s") (simp_all add: named_params_def)
    ultimately show ?thesis by (simp only: filter_append append_Nil)
  qed
  have gf: "mode s \<noteq> ''synchronous'' \<Longrightarrow> \<exists>t. get_factory (parameter_server_mode s) = Inr t"
    using fac by (cases "get_factory (parameter_server_mode s)") (auto simp add: get_factory_def split: if_splits)
  define base where "base = \<lparr>cls = cls s,
                     master_network = master_network s,
                     training_histories = ([] :: 'g list),
                     mode = mode s,
                     frequency = frequency s,
                     num_workers = num_workers s,
                     weights = get_weights (master_network s),
                     parameter_server_mode = parameter_server_mode s,
                     batch_size = batch_size s,
                     port = 4000,
                     kwargs = kwargs s,
                     parameter_server = None,
                     client = None,
                     trace = []\<rparr>"
  have nm: "new_model (cls s) (master_network s) ?K =
      (if mode s \<noteq> ''synchronous''
       then then_do (get_factory (parameter_server_mode s)) (\<lambda>factory.
              Inr (base\<lparr>parameter_server := Some (create_server (master_network s) 4000 (mode s)),
                     client := Some 4000\<rparr>))
       else Inr base)"
    unfolding new_model_def base_def
    by (simp only: dK mK a1 a2 a3 a4 a5 a6 then_do_def sum.case l flt Let_def simp_thms if_True
        if_False)
  have c: "construct (cls s) (master_network s) (Some (JObj (get_config s))) =
      then_do (new_model (cls s) (master_network s) ?K) (\<lambda>s. Inr (Some s))"
    unfolding cfg construct_def by (simp only: option.case json.case)
  show ?thesis
  proof (cases "mode s = ''synchronous''")
    case True
    then have "construct (cls s) (master_network s) (Some (JObj (get_config s))) = Inr (Some base)"
      unfolding c nm by (simp add: then_do_def)
    then show ?thesis by (intro exI [of _ base]) (simp add: base_def)
  next
    case False
    from gf [OF False] obtain t where t: "get_factory (parameter_server_mode s) = Inr t" ..
    let ?s' = "base\<lparr>parameter_server := Some (create_server (master_network s) 4000 (mode s)),
                     client := Some 4000\<rparr>"
    from False have "construct (cls s) (master_network s) (Some (JObj (get_config s))) = Inr (Some ?s')"
      unfolding c nm by (simp add: then_do_def t)
    then show ?thesis by (intro exI [of _ ?s']) (simp add: base_def)
  qed
qed

lemma save_local:
  "valid_extension file_name \<Longrightarrow>
   save uuid s file_name overwrite False w =
     (None, w\<lparr>local_files := (local_files w)(file_name \<mapsto> model_file s)\<rparr>)"
  by (simp add: save_def Let_def keras_save_def set_attr_def unlink_def model_file_def)

lemma save_hadoop:
  "valid_extension file_name \<Longrightarrow> overwrite \<or> cluster_files w file_name = None \<Longrightarrow>
   save uuid s file_name overwrite True w =
     (None, w\<lparr>cluster_files := (cluster_files w)(file_name \<mapsto> model_file s),
              local_files := (local_files w)(temp_name uuid file_name := None)\<rparr>)"
  by (auto simp add: save_def Let_def keras_save_def set_attr_def hadoop_moveFromLocal_def
      model_file_def)

lemma save_hadoop_refused:
  "valid_extension file_name \<Longrightarrow> \<not> overwrite \<Longrightarrow> cluster_files w file_name \<noteq> None \<Longrightarrow>
   save uuid s file_name overwrite True w =
     (None, w\<lparr>local_files := (local_files w)(temp_name uuid file_name \<mapsto> model_file s)\<rparr>)"
  by (auto simp add: save_def Let_def keras_save_def set_attr_def hadoop_moveFromLocal_def
      model_file_def)

lemma load_local_saved:
  "valid_extension file_name \<Longrightarrow> local_files w file_name = Some (model_file s) \<Longrightarrow>
   load_spark_model uuid file_name False w =
     (construct (cls s) (master_network s) (Some (JObj (get_config s))), w)"
  by (cases "cls s") (simp_all add: load_spark_model_def model_file_def Let_def class_name_def)

lemma unlink_absent:
  "local_files w t = None \<Longrightarrow> w\<lparr>local_files := (local_files w)(t := None)\<rparr> = w"
proof -
  assume "local_files w t = None"
  then have "(local_files w)(t := None) = local_files w" by (rule fun_upd_idem)
  then show ?thesis by simp
qed

lemma load_hadoop_saved:
  "valid_extension file_name \<Longrightarrow> cluster_files w file_name = Some (model_file s) \<Longrightarrow>
   local_files w (temp_name uuid file_name) = None \<Longrightarrow>
   load_spark_model uuid file_name True w =
     (construct (cls s) (master_network s) (Some (JObj (get_config s))), w)"
  by (cases "cls s")
    (simp_all add: load_spark_model_def model_file_def Let_def class_name_def
      hadoop_copyToLocal_def unlink_def unlink_absent)

lemma construct_restored:
  fixes s :: "'h spark_model"
  assumes "well_formed s"
  shows "\<exists>s' :: 'g spark_model.
           construct (cls s) (master_network s) (Some (JObj (get_config s))) = Inr (Some s') \<and>
           restored s' s"
proof -
  from construct_saved_config [OF assms] obtain s' :: "'g spark_model" where
    c: "construct (cls s) (master_network s) (Some (JObj (get_config s))) = Inr (Some s')"
    and f: "cls s' = cls s" "master_network s' = master_network s"
      "parameter_server_mode s' = parameter_server_mode s" "mode s' = mode s"
      "frequency s' = frequency s" "num_workers s' = num_workers s"
      "batch_size s' = batch_size s" "kwargs s' = kwargs s"
    by blast
  have "restored s' s"
    using f by (simp add: restored_def get_config_def master_weights_def)
  with c show ?thesis by blast
qed

text \<open>
  Claim C5.  Saving a constructed orchestrator under a name with a valid extension and
  loading the file again gives an orchestrator of the same class, with the same
  \<^verbatim>\<open>parameter_server_mode\<close>, \<^verbatim>\<open>mode\<close>, \<^verbatim>\<open>frequency\<close>,
  \<^verbatim>\<open>num_workers\<close>, \<^verbatim>\<open>batch_size\<close> and extra keyword arguments, and with the
  weights of the master network at the time of the save.  This holds for a local save
  and load, and for a save to and a load from the cluster when the transfer is not
  refused and the temporary name of the load is free.  The extra keyword arguments are
  JSON values, as the type of \<open>kwargs\<close> has them.
\<close>

theorem save_load_round_trip:
  fixes s :: "'h spark_model"
  assumes "well_formed s" and "valid_extension file_name"
  shows "fst (save uuid s file_name overwrite False w) = None \<and>
         (\<exists>s' :: 'h spark_model.
            load_spark_model uuid' file_name False (snd (save uuid s file_name overwrite False w)) =
              (Inr (Some s'), snd (save uuid s file_name overwrite False w)) \<and>
            restored s' s) \<and>
         ((overwrite \<or> cluster_files w file_name = None) \<and>
          local_files w (temp_name uuid' file_name) = None \<longrightarrow>
            fst (save uuid s file_name overwrite True w) = None \<and>
            (\<exists>s' :: 'h spark_model.
               load_spark_model uuid' file_name True (snd (save uuid s file_name overwrite True w)) =
                 (Inr (Some s'), snd (save uuid s file_name overwrite True w)) \<and>
               restored s' s))"
proof (intro conjI impI)
  from construct_restored [OF assms(1)] obtain s' :: "'h spark_model" where
    c: "construct (cls s) (master_network s) (Some (JObj (get_config s))) = Inr (Some s')"
    and r: "restored s' s"
    by blast
  show "fst (save uuid s file_name overwrite False w) = None"
    by (simp add: save_local [OF assms(2)])
  let ?w = "w\<lparr>local_files := (local_files w)(file_name \<mapsto> model_file s)\<rparr>"
  have "load_spark_model uuid' file_name False ?w =
      (construct (cls s) (master_network s) (Some (JObj (get_config s)))
         :: error + 'h spark_model option, ?w)"
    by (rule load_local_saved [OF assms(2)]) simp
  then have "load_spark_model uuid' file_name False ?w = (Inr (Some s'), ?w)"
    unfolding c .
  with r show "\<exists>s' :: 'h spark_model.
      load_spark_model uuid' file_name False (snd (save uuid s file_name overwrite False w)) =
        (Inr (Some s'), snd (save uuid s file_name overwrite False w)) \<and> restored s' s"
    unfolding save_local [OF assms(2)] snd_conv by blast
  assume h: "(overwrite \<or> cluster_files w file_name = None) \<and>
      local_files w (temp_name uuid' file_name) = None"
  then have ok: "overwrite \<or> cluster_files w file_name = None" by simp
  show "fst (save uuid s file_name overwrite True w) = None"
    by (simp add: save_hadoop [OF assms(2) ok])
  let ?v = "w\<lparr>cluster_files := (cluster_files w)(file_name \<mapsto> model_file s),
              local_files := (local_files w)(temp_name uuid file_name := None)\<rparr>"
  have "load_spark_model uuid' file_name True ?v =
      (construct (cls s) (master_network s) (Some (JObj (get_config s)))
         :: error + 'h spark_model option, ?v)"
    by (rule load_hadoop_saved [OF assms(2)]) (use h in simp_all)
  then have "load_spark_model uuid' file_name True ?v = (Inr (Some s'), ?v)"
    unfolding c .
  with r show "\<exists>s' :: 'h spark_model.
      load_spark_model uuid' file_name True (snd (save uuid s file_name overwrite True w)) =
        (Inr (Some s'), snd (save uuid s file_name overwrite True w)) \<and> restored s' s"
    unfolding save_hadoop [OF assms(2) ok] snd_conv by blast
qed

lemma valid_extension_model_h5: "valid_extension ''model.h5''"
  by (simp add: valid_extension_def str_suffix_def)

lemma well_formed_demo_hogwild: "well_formed demo_hogwild"
  by (simp add: well_formed_def demo_hogwild_def demo_model_def demo_network_def named_params_def
      get_factory_def)

theorem save_load_round_trip_witness:
  "well_formed demo_hogwild \<and> valid_extension ''model.h5'' \<and>
   fst (save ''u1'' demo_hogwild ''model.h5'' False False empty_world) = None \<and>
   map_sum id (map_option mode)
     (fst (load_spark_model ''u2'' ''model.h5'' False
        (snd (save ''u1'' demo_hogwild ''model.h5'' False False empty_world)))
        :: error + string spark_model option) = Inr (Some ''hogwild'') \<and>
   map_sum id (map_option num_workers)
     (fst (load_spark_model ''u2'' ''model.h5'' False
        (snd (save ''u1'' demo_hogwild ''model.h5'' False False empty_world)))
        :: error + string spark_model option) = Inr (Some (Some 3)) \<and>
   map_sum id (map_option master_weights)
     (fst (load_spark_model ''u2'' ''model.h5'' False
        (snd (save ''u1'' demo_hogwild ''model.h5'' False False empty_world)))
        :: error + string spark_model option) = Inr (Some [[1, 2], [3]])"
proof -
  note t = save_load_round_trip [OF well_formed_demo_hogwild valid_extension_model_h5,
      of "''u1''" False empty_world "''u2''"]
  from t obtain s' :: "string spark_model" where
    l: "load_spark_model ''u2'' ''model.h5'' False
          (snd (save ''u1'' demo_hogwild ''model.h5'' False False empty_world)) =
        (Inr (Some s'), snd (save ''u1'' demo_hogwild ''model.h5'' False False empty_world))"
    and r: "restored s' demo_hogwild"
    by blast
  have m: "mode s' = ''hogwild''" and n: "num_workers s' = Some 3"
    and w: "master_weights s' = [[1, 2], [3]]"
    using r by (simp_all add: restored_def demo_hogwild_def demo_model_def demo_network_def
        master_weights_def)
  show ?thesis
    using well_formed_demo_hogwild valid_extension_model_h5 t [THEN conjunct1]
    by (simp add: l m n w)
qed

text \<open>
  Claim C10.  When the metadata block of the file is a JSON object whose
  \<^verbatim>\<open>class_name\<close> is neither \<^verbatim>\<open>SparkModel\<close> nor \<^verbatim>\<open>SparkMLlibModel\<close>,
  \<^verbatim>\<open>load_spark_model\<close> raises nothing and returns \<^verbatim>\<open>None\<close>, for a local file and for
  a file of the cluster that is copied to a free temporary name; the local file system
  is left as it was.
\<close>

theorem load_unknown_class_returns_None:
  assumes "valid_extension file_name"
    and "map_of (attrs f) ''distributed_config'' = Some (JObj elephas_conf)"
    and "map_of elephas_conf ''class_name'' \<noteq> Some (JStr ''SparkModel'')"
    and "map_of elephas_conf ''class_name'' \<noteq> Some (JStr ''SparkMLlibModel'')"
  shows "(local_files w file_name = Some f \<longrightarrow>
            load_spark_model uuid file_name False w = (Inr None :: error + 'h spark_model option, w)) \<and>
         (cluster_files w file_name = Some f \<and> local_files w (temp_name uuid file_name) = None \<longrightarrow>
            load_spark_model uuid file_name True w = (Inr None :: error + 'h spark_model option, w))"
  using assms
  by (simp add: load_spark_model_def Let_def class_name_def hadoop_copyToLocal_def unlink_def
      unlink_absent)

theorem load_unknown_class_returns_None_witness:
  "valid_extension ''model.h5'' \<and>
   map_of (attrs \<lparr>saved_model = demo_network,
                  attrs = [(''distributed_config'',
                            JObj [(''class_name'', JStr ''ElephasEstimator''), (''config'', JObj [])])]\<rparr>)
     ''distributed_config'' =
     Some (JObj [(''class_name'', JStr ''ElephasEstimator''), (''config'', JObj [])]) \<and>
   map_of [(''class_name'', JStr ''ElephasEstimator''), (''config'', JObj [])] ''class_name'' \<noteq>
     Some (JStr ''SparkModel'') \<and>
   map_of [(''class_name'', JStr ''ElephasEstimator''), (''config'', JObj [])] ''class_name'' \<noteq>
     Some (JStr ''SparkMLlibModel'') \<and>
   fst (load_spark_model ''u1'' ''model.h5'' False
     \<lparr>local_files =
        [''model.h5'' \<mapsto>
           \<lparr>saved_model = demo_network,
              attrs = [(''distributed_config'',
                        JObj [(''class_name'', JStr ''ElephasEstimator''), (''config'', JObj [])])]\<rparr>],
      cluster_files = Map.empty\<rparr>) = (Inr None :: error + string spark_model option)"
proof -
  let ?conf = "[(''class_name'', JStr ''ElephasEstimator''), (''config'', JObj [])]"
  let ?f = "\<lparr>saved_model = demo_network, attrs = [(''distributed_config'', JObj ?conf)]\<rparr>"
  let ?w = "\<lparr>local_files = [''model.h5'' \<mapsto> ?f], cluster_files = Map.empty\<rparr>"
  have h2: "map_of (attrs ?f) ''distributed_config'' = Some (JObj ?conf)" by simp
  have h3: "map_of ?conf ''class_name'' \<noteq> Some (JStr ''SparkModel'')" by simp
  have h4: "map_of ?conf ''class_name'' \<noteq> Some (JStr ''SparkMLlibModel'')" by simp
  have l: "local_files ?w ''model.h5'' = Some ?f" by simp
  note t = load_unknown_class_returns_None [OF valid_extension_model_h5 h2 h3 h4,
      where w = ?w and uuid = "''u1''" and ?'h = string, THEN conjunct1, rule_format, OF l]
  show ?thesis using valid_extension_model_h5 h2 h3 h4 by (simp add: t)
qed

text \<open>
  Claim C9, as the code has it.  The temporary local file is gone after a save to the
  cluster whose transfer is not refused, that is, when the destination is absent or
  \<^verbatim>\<open>overwrite\<close> is set; and after a load from the cluster whose copy arrived under a
  free temporary name and whose metadata block was read as a JSON object, whatever the
  construction of the orchestrator then does.  Nothing removes the file on the other
  paths.
\<close>

theorem temporary_file_removed_on_success:
  assumes "valid_extension file_name"
  shows "(overwrite \<or> cluster_files w file_name = None \<longrightarrow>
            fst (save uuid s file_name overwrite True w) = None \<and>
            local_files (snd (save uuid s file_name overwrite True w)) (temp_name uuid file_name) = None \<and>
            cluster_files (snd (save uuid s file_name overwrite True w)) file_name = Some (model_file s)) \<and>
         (cluster_files w file_name = Some f \<and> local_files w (temp_name uuid file_name) = None \<and>
          map_of (attrs f) ''distributed_config'' = Some (JObj elephas_conf) \<longrightarrow>
            snd (load_spark_model uuid file_name True w :: (error + 'h spark_model option) \<times> world) = w)"
proof (intro conjI impI)
  assume ok: "overwrite \<or> cluster_files w file_name = None"
  show "fst (save uuid s file_name overwrite True w) = None"
    and "local_files (snd (save uuid s file_name overwrite True w)) (temp_name uuid file_name) = None"
    and "cluster_files (snd (save uuid s file_name overwrite True w)) file_name = Some (model_file s)"
    by (simp_all add: save_hadoop [OF assms ok])
next
  assume "cluster_files w file_name = Some f \<and> local_files w (temp_name uuid file_name) = None \<and>
          map_of (attrs f) ''distributed_config'' = Some (JObj elephas_conf)"
  then show "snd (load_spark_model uuid file_name True w :: (error + 'h spark_model option) \<times> world) = w"
    using assms
    by (simp add: load_spark_model_def Let_def hadoop_copyToLocal_def unlink_def unlink_absent)
qed

lemma temp_name_model_h5: "temp_name u ''model.h5'' = u @ ''-temp-model-file.h5''"
  by (simp add: temp_name_def last_component_def)

theorem temporary_file_removed_on_success_witness:
  "valid_extension ''model.h5'' \<and>
   (True \<or> cluster_files demo_world ''model.h5'' = None) \<and>
   fst (save ''u1'' demo_hogwild ''model.h5'' True True demo_world) = None \<and>
   local_files (snd (save ''u1'' demo_hogwild ''model.h5'' True True demo_world))
     ''u1-temp-model-file.h5'' = None \<and>
   cluster_files (snd (save ''u1'' demo_hogwild ''model.h5'' True True demo_world)) ''model.h5'' =
     Some (model_file demo_hogwild) \<and>
   cluster_files
     \<lparr>local_files = Map.empty, cluster_files = [''model.h5'' \<mapsto> model_file demo_hogwild]\<rparr>
     ''model.h5'' = Some (model_file demo_hogwild) \<and>
   local_files
     \<lparr>local_files = Map.empty, cluster_files = [''model.h5'' \<mapsto> model_file demo_hogwild]\<rparr>
     ''u2-temp-model-file.h5'' = None \<and>
   map_of (attrs (model_file demo_hogwild)) ''distributed_config'' =
     Some (JObj [(''class_name'', JStr (class_name (cls demo_hogwild))),
                 (''config'', JObj (get_config demo_hogwild))]) \<and>
   snd (load_spark_model ''u2'' ''model.h5'' True
     \<lparr>local_files = Map.empty, cluster_files = [''model.h5'' \<mapsto> model_file demo_hogwild]\<rparr>
     :: (error + string spark_model option) \<times> world) =
     \<lparr>local_files = Map.empty, cluster_files = [''model.h5'' \<mapsto> model_file demo_hogwild]\<rparr>"
proof -
  let ?w = "\<lparr>local_files = Map.empty, cluster_files = [''model.h5'' \<mapsto> model_file demo_hogwild]\<rparr>"
  let ?conf = "[(''class_name'', JStr (class_name (cls demo_hogwild))),
                 (''config'', JObj (get_config demo_hogwild))]"
  have o: "True \<or> cluster_files demo_world ''model.h5'' = None" by simp
  note a = temporary_file_removed_on_success [OF valid_extension_model_h5,
      where overwrite = True and w = demo_world and uuid = "''u1''" and s = demo_hogwild,
      THEN conjunct1, rule_format, OF o]
  have h: "cluster_files ?w ''model.h5'' = Some (model_file demo_hogwild) \<and>
      local_files ?w (temp_name ''u2'' ''model.h5'') = None \<and>
      map_of (attrs (model_file demo_hogwild)) ''distributed_config'' = Some (JObj ?conf)"
    by (simp add: model_file_def)
  note b = temporary_file_removed_on_success [OF valid_extension_model_h5,
      where w = ?w and uuid = "''u2''" and f = "model_file demo_hogwild" and elephas_conf = ?conf
        and ?'h = string,
      THEN conjunct2, rule_format, OF h]
  show ?thesis
    using valid_extension_model_h5 a b h by (simp add: temp_name_model_h5)
qed

text \<open>
  The claim as the spec states it fails on both paths.  A save to the cluster without
  \<^verbatim>\<open>overwrite\<close> onto an existing destination is refused by the transfer, returns
  normally and leaves the temporary file; a load from the cluster of a file without the
  metadata block raises after the copy and leaves the temporary file.
\<close>

theorem temporary_file_left_after_failure:
  "fst (save ''u1'' demo_hogwild ''model.h5'' False True demo_world) = None \<and>
   cluster_files (snd (save ''u1'' demo_hogwild ''model.h5'' False True demo_world)) ''model.h5'' =
     Some old_file \<and>
   local_files (snd (save ''u1'' demo_hogwild ''model.h5'' False True demo_world))
     ''u1-temp-model-file.h5'' = Some (model_file demo_hogwild) \<and>
   local_files demo_world ''u2-temp-model-file.h5'' = None \<and>
   fst (load_spark_model ''u2'' ''model.h5'' True demo_world
     :: (error + string spark_model option) \<times> world) =
     Inl (TypeError ''the JSON object must be str, bytes or bytearray'') \<and>
   local_files (snd (load_spark_model ''u2'' ''model.h5'' True demo_world
     :: (error + string spark_model option) \<times> world)) ''u2-temp-model-file.h5'' = Some old_file"
proof -
  have c: "cluster_files demo_world ''model.h5'' \<noteq> None" by (simp add: demo_world_def)
  have s: "save ''u1'' demo_hogwild ''model.h5'' False True demo_world =
      (None, demo_world\<lparr>local_files :=
         (local_files demo_world)(temp_name ''u1'' ''model.h5'' \<mapsto> model_file demo_hogwild)\<rparr>)"
    by (rule save_hadoop_refused [OF valid_extension_model_h5 _ c]) simp
  have l: "(load_spark_model ''u2'' ''model.h5'' True demo_world
        :: (error + string spark_model option) \<times> world) =
      (Inl (TypeError ''the JSON object must be str, bytes or bytearray''),
       demo_world\<lparr>local_files := (local_files demo_world)(''u2-temp-model-file.h5'' \<mapsto> old_file)\<rparr>)"
    using valid_extension_model_h5
    by (simp add: load_spark_model_def Let_def hadoop_copyToLocal_def temp_name_model_h5
        demo_world_def old_file_def)
  show ?thesis
    unfolding s l by (simp add: temp_name_model_h5 demo_world_def)
qed

text \<open>
  Claim C8 on the code.  \<^verbatim>\<open>model.h5\<close> exists and \<^verbatim>\<open>save\<close> is called without
  \<^verbatim>\<open>overwrite\<close> and without \<^verbatim>\<open>to_hadoop\<close>: the call returns normally and the file
  now holds the orchestrator's model, not what it held before.
\<close>

theorem save_without_overwrite_replaces_file:
  "local_files demo_world ''model.h5'' = Some old_file \<and>
   fst (save ''u1'' demo_hogwild ''model.h5'' False False demo_world) = None \<and>
   local_files (snd (save ''u1'' demo_hogwild ''model.h5'' False False demo_world)) ''model.h5'' =
     Some (model_file demo_hogwild) \<and>
   model_file demo_hogwild \<noteq> old_file"
proof -
  have "model_file demo_hogwild \<noteq> old_file"
    by (simp add: model_file_def old_file_def)
  then show ?thesis
    by (simp add: save_local [OF valid_extension_model_h5] demo_world_def)
qed

section \<open>Properties of prediction\<close>

lemma rdd_map_fails_on_empty:
  "[] \<in> set rdd \<Longrightarrow> \<exists>e. rdd_map (predict_with_indices mp) rdd = Inl e"
proof (induction rdd)
  case Nil
  then show ?case by simp
next
  case (Cons p ps)
  show ?case
  proof (cases "p = []")
    case True
    then show ?thesis by (simp add: predict_with_indices_def then_do_def)
  next
    case False
    with Cons obtain e where "rdd_map (predict_with_indices mp) ps = Inl e" by auto
    moreover obtain r where "predict_with_indices mp p = Inr r"
      using False by (simp add: predict_with_indices_def)
    ultimately show ?thesis by (simp add: then_do_def)
  qed
qed

lemma predict'_fails_on_empty_partition:
  assumes "num_workers s = Some n" and "1 < n"
    and "[] \<in> set (repartition_rdd n (zipWithIndex rdd))"
  shows "\<exists>e. predict' repartition_rdd model_predict s rdd = Inl e"
proof -
  from rdd_map_fails_on_empty [OF assms(3)] obtain e where
    "rdd_map (predict_with_indices (model_predict (master_weights s))) (repartition_rdd n (zipWithIndex rdd)) = Inl e"
    by blast
  then show ?thesis using assms(1,2) by (simp add: predict'_def Let_def then_do_def)
qed

lemma round_robin_one_of_two: "round_robin 2 [[(x, 0 :: nat)]] = [[(x, 0)], []]"
  by (simp add: round_robin_def Let_def numeral_2_eq_2)

text \<open>
  Claim C4 on the code.  One sample and two workers: after the repartitioning one of the
  two partitions is empty, \<^verbatim>\<open>_predict_with_indices\<close> has nothing to unpack there, and
  the call raises instead of returning the prediction.  Without workers the same input
  gives its prediction.
\<close>

theorem predict_raises_on_empty_partition:
  "predict' round_robin doubling ((demo_model ''synchronous'')\<lparr>num_workers := Some 2\<rparr>) [[7]] =
     Inl (ValueError ''not enough values to unpack (expected 2, got 0)'') \<and>
   predict' round_robin doubling (demo_model ''synchronous'') [[7]] = Inr [14]"
  by (simp add: predict'_def Let_def demo_model_def zipWithIndex_def round_robin_one_of_two
      predict_with_indices_def predict_partition_def then_do_def doubling_def)

text \<open>
  When no partition is empty after the repartitioning, the repartitioning keeps the
  elements and the model predicts sample by sample, the indexed path returns the
  predictions in the order of the input; so does the path without workers.
\<close>

lemma concat_index_from:
  "concat (index_from k rdd) = zip (concat rdd) [k..<k + length (concat rdd)]"
proof (induction rdd arbitrary: k)
  case Nil
  then show ?case by simp
next
  case (Cons p ps)
  have "[k..<k + (length p + length (concat ps))] =
      [k..<k + length p] @ [k + length p..<k + length p + length (concat ps)]"
    using upt_add_eq_append [of k "k + length p" "length (concat ps)"] by (simp add: add.assoc)
  then show ?case by (simp add: Cons.IH zip_append)
qed

lemma concat_zipWithIndex:
  "concat (zipWithIndex rdd) = zip (concat rdd) [0..<length (concat rdd)]"
  by (simp add: zipWithIndex_def concat_index_from)

lemma predict_with_indices_elementwise:
  assumes "\<And>xs. mp xs = map f xs" and "p \<noteq> []"
  shows "predict_with_indices mp p = Inr (map (\<lambda>xi. (f (fst xi), snd xi)) p)"
proof -
  have "zip (map f (map fst p)) (map snd p) = map (\<lambda>xi. (f (fst xi), snd xi)) p"
    by (induction p) simp_all
  then show ?thesis using assms by (simp add: predict_with_indices_def)
qed

lemma rdd_map_predict_with_indices:
  assumes "\<And>xs. mp xs = map f xs" and "[] \<notin> set rdd"
  shows "rdd_map (predict_with_indices mp) rdd = Inr (map (map (\<lambda>xi. (f (fst xi), snd xi))) rdd)"
  using assms(2)
  by (induction rdd) (auto simp add: predict_with_indices_elementwise [OF assms(1)] then_do_def)

lemma filter_distinct_key:
  "distinct (map h ys) \<Longrightarrow> k \<in> set ys \<Longrightarrow> filter (\<lambda>x. h k = h x) ys = [k]"
proof (induction ys)
  case Nil
  then show ?case by simp
next
  case (Cons y ys)
  show ?case
  proof (cases "k = y")
    case True
    have "filter (\<lambda>x. h y = h x) ys = []"
      using Cons.prems(1) by (auto simp add: filter_empty_conv)
    with True show ?thesis by simp
  next
    case False
    with Cons.prems have in_ys: "k \<in> set ys" by simp
    then have "h k \<in> h ` set ys" by (rule imageI)
    moreover have "h y \<notin> h ` set ys" using Cons.prems(1) by simp
    ultimately have "h k \<noteq> h y" by metis
    moreover have "filter (\<lambda>x. h k = h x) ys = [k]"
      using Cons.prems(1) in_ys by (intro Cons.IH) simp_all
    ultimately show ?thesis by simp
  qed
qed

lemma sort_key_unique:
  assumes "mset L = mset ys" and "sorted (map h ys)" and "distinct (map h ys)"
  shows "sort_key h L = ys"
proof (rule properties_for_sort_key)
  show "mset ys = mset L" using assms(1) by simp
  show "sorted (map h ys)" by (rule assms(2))
  fix k assume k: "k \<in> set ys"
  have ys: "filter (\<lambda>x. h k = h x) ys = [k]"
    using assms(3) k by (rule filter_distinct_key)
  have "mset (filter (\<lambda>x. h k = h x) L) = mset (filter (\<lambda>x. h k = h x) ys)"
    by (simp add: assms(1))
  then have "mset (filter (\<lambda>x. h k = h x) L) = {#k#}" by (simp add: ys)
  then have "filter (\<lambda>x. h k = h x) L = [k]" by (simp only: mset_single_iff)
  with ys show "filter (\<lambda>x. h k = h x) ys = filter (\<lambda>x. h k = h x) L" by simp
qed

lemma predict'_restores_order:
  assumes n: "num_workers s = Some n" "1 < n"
    and perm: "mset (concat (repartition_rdd n (zipWithIndex rdd))) = mset (concat (zipWithIndex rdd))"
    and nonempty: "[] \<notin> set (repartition_rdd n (zipWithIndex rdd))"
    and elementwise: "\<And>xs. model_predict (master_weights s) xs = map f xs"
  shows "predict' repartition_rdd model_predict s rdd = Inr (map f (concat rdd))"
proof -
  let ?g = "\<lambda>xi. (f (fst xi), snd xi)"
  let ?xs = "concat rdd"
  let ?Z = "zip ?xs [0..<length ?xs]"
  let ?rdd2 = "repartition_rdd n (zipWithIndex rdd)"
  let ?L = "concat (map (map ?g) ?rdd2)"
  have L: "?L = map ?g (concat ?rdd2)" by (simp add: map_concat)
  have "mset (concat ?rdd2) = mset ?Z"
    using perm unfolding concat_zipWithIndex .
  then have "image_mset ?g (mset (concat ?rdd2)) = image_mset ?g (mset ?Z)"
    by (rule arg_cong)
  then have msetL: "mset ?L = mset (map ?g ?Z)"
    unfolding L by (simp only: mset_map)
  have keys: "map snd (map ?g ?Z) = [0..<length ?xs]"
    by (simp add: comp_def)
  have "sort_key snd ?L = map ?g ?Z"
    by (rule sort_key_unique [OF msetL]) (simp_all only: keys sorted_upt distinct_upt)
  moreover have "map fst (map ?g ?Z) = map f ?xs"
  proof -
    have "map fst (map ?g ?Z) = map f (map fst ?Z)" by (simp only: map_map comp_def fst_conv)
    moreover have "map fst ?Z = ?xs" by (rule map_fst_zip) simp
    ultimately show ?thesis by (simp only:)
  qed
  ultimately have sorted_back: "map fst (sort_key snd ?L) = map f ?xs" by (simp only:)
  have r: "rdd_map (predict_with_indices (model_predict (master_weights s))) ?rdd2 =
      Inr (map (map ?g) ?rdd2)"
    by (rule rdd_map_predict_with_indices [OF elementwise nonempty])
  have "predict' repartition_rdd model_predict s rdd =
      then_do (rdd_map (predict_with_indices (model_predict (master_weights s))) ?rdd2)
        (\<lambda>predictions_and_indices. Inr (map fst (sort_key snd (concat predictions_and_indices))))"
    unfolding predict'_def Let_def n(1) using n(2) by (simp only: option.case) simp
  also have "\<dots> = Inr (map fst (sort_key snd ?L))"
    unfolding r by (simp only: then_do_def sum.case)
  finally show ?thesis unfolding sorted_back .
qed

lemma predict'_without_workers:
  assumes "case num_workers s of None \<Rightarrow> True | Some n \<Rightarrow> n \<le> 1"
    and elementwise: "\<And>xs. model_predict (master_weights s) xs = map f xs"
  shows "predict' repartition_rdd model_predict s rdd = Inr (map f (concat rdd))"
proof -
  have "rdd_map (predict_partition (model_predict (master_weights s))) rdd = Inr (map (map f) rdd)"
    by (induction rdd) (simp_all add: predict_partition_def elementwise then_do_def)
  then show ?thesis
    using assms(1) by (auto simp add: predict'_def Let_def then_do_def map_concat split: option.splits)
qed

end
